theory Spec2Isabelle
  imports Main "HOL-Library.Word"
begin

unbundle bit_operations_syntax

section \<open>The kimchi/pump serialization codec\<close>

text \<open>
  A shallow embedding of \<^verbatim>\<open>src/pump/utils/types.c\<close> (\<^verbatim>\<open>getType\<close>) and
  \<^verbatim>\<open>src/kimchi/utils/serialize.c\<close> (\<^verbatim>\<open>serialize\<close>, \<^verbatim>\<open>deserialize\<close>),
  compiled for Python 2 (\<^verbatim>\<open>PY_MAJOR_VERSION == 2\<close>: \<^verbatim>\<open>types.c\<close> uses the
  Python 2 API \<^verbatim>\<open>PyInt_CheckExact\<close> and \<^verbatim>\<open>PyString_Check\<close>).
\<close>

subsection \<open>Constants of the missing headers\<close>

type_synonym byte = "8 word"

text \<open>
  The type tags are macros of \<^verbatim>\<open>headers/pump.h\<close> and \<^verbatim>\<open>headers/kimchi.h\<close>, which
  are not part of the sources. They are a parameter of the model: one \<^verbatim>\<open>unsigned char\<close>
  per macro name used in the two C files. \<^verbatim>\<open>types.c\<close> names the tag of byte strings
  \<^verbatim>\<open>STRING_TYPE\<close>, \<^verbatim>\<open>serialize.c\<close> names it \<^verbatim>\<open>BYTES_TYPE\<close>; both names are kept.
  The validity test of the codec's text encoding belongs to the missing
  \<^verbatim>\<open>deserializeUnicode\<close> and is a parameter as well.
\<close>

record codec =
  INT_TYPE :: byte
  NEG_INT_TYPE :: byte
  LONG_TYPE :: byte
  NEG_LONG_TYPE :: byte
  FLOAT_TYPE :: byte
  STRING_TYPE :: byte
  BYTES_TYPE :: byte
  UNICODE_TYPE :: byte
  LIST_TYPE :: byte
  TUPLE_TYPE :: byte
  DICT_TYPE :: byte
  SET_TYPE :: byte
  FROZEN_SET_TYPE :: byte
  BOOL_TRUE_TYPE :: byte
  BOOL_FALSE_TYPE :: byte
  NONE_TYPE :: byte
  text_valid :: "byte list \<Rightarrow> bool"

text \<open>
  The case labels of the \<^verbatim>\<open>switch\<close> statements of \<^verbatim>\<open>serialize\<close> and \<^verbatim>\<open>deserialize\<close>,
  in the order of \<^verbatim>\<open>serialize\<close>.
\<close>

definition case_labels :: "codec \<Rightarrow> byte list" where
  "case_labels T =
     [INT_TYPE T, NEG_INT_TYPE T, LONG_TYPE T, NEG_LONG_TYPE T, FLOAT_TYPE T,
      BYTES_TYPE T, UNICODE_TYPE T, LIST_TYPE T, TUPLE_TYPE T, DICT_TYPE T,
      SET_TYPE T, FROZEN_SET_TYPE T, BOOL_TRUE_TYPE T, BOOL_FALSE_TYPE T, NONE_TYPE T]"

text \<open>
  What the C compiler and \<^verbatim>\<open>getType\<close>'s contract require of the tags: the labels of one
  \<^verbatim>\<open>switch\<close> are pairwise different, and no tag is 0, the value \<^verbatim>\<open>getType\<close> returns
  for an unknown type.
\<close>

definition tags_ok :: "codec \<Rightarrow> bool" where
  "tags_ok T = (distinct (case_labels T) \<and> 0 \<notin> set (case_labels T) \<and> STRING_TYPE T \<noteq> 0)"

text \<open>
  A tag table for concrete evaluations. The README's examples fix four of its bytes
  (\<^verbatim>\<open>dumps(123)\<close> starts with 1, \<^verbatim>\<open>dumps('123')\<close> with 5, a list with 8, a tuple
  with 9); the others are chosen freely. Every byte sequence counts as valid text.
\<close>

definition example_codec :: codec where
  "example_codec =
     \<lparr>INT_TYPE = 1, NEG_INT_TYPE = 2, LONG_TYPE = 3, NEG_LONG_TYPE = 4, FLOAT_TYPE = 7,
      STRING_TYPE = 5, BYTES_TYPE = 5, UNICODE_TYPE = 6, LIST_TYPE = 8, TUPLE_TYPE = 9,
      DICT_TYPE = 10, SET_TYPE = 11, FROZEN_SET_TYPE = 12, BOOL_TRUE_TYPE = 13,
      BOOL_FALSE_TYPE = 14, NONE_TYPE = 15, text_valid = (\<lambda>bs. True)\<rparr>"

subsection \<open>Host values\<close>

text \<open>
  A Python 2 object as the codec sees it: its type and its contents. \<open>Exact\<close> marks an
  instance of the built-in type itself, \<open>Subclass\<close> an instance of a strict subclass.
  \<^verbatim>\<open>bool\<close> cannot be subclassed and is itself a subclass of \<^verbatim>\<open>int\<close>; \<open>PyOther\<close> is an
  object of any other type, with its \<^verbatim>\<open>tp_name\<close>. A float is its 64-bit pattern, a
  unicode string its bytes under the codec's text encoding; a dictionary is its items
  and a set its elements, both in iteration order.
\<close>

datatype cls = Exact | Subclass

datatype pyobj =
    PyInt cls int
  | PyLong cls int
  | PyFloat cls "64 word"
  | PyString cls "byte list"
  | PyUnicode cls "byte list"
  | PyList cls "pyobj list"
  | PyTuple cls "pyobj list"
  | PyDict cls "(pyobj \<times> pyobj) list"
  | PySet cls "pyobj list"
  | PyFrozenSet cls "pyobj list"
  | PyBool bool
  | PyNone
  | PyOther string

text \<open>The type checks of the CPython API that \<^verbatim>\<open>getType\<close> uses.\<close>

fun PyInt_CheckExact :: "pyobj \<Rightarrow> bool" where
  "PyInt_CheckExact (PyInt Exact v) = True"
| "PyInt_CheckExact obj = False"

fun PyLong_CheckExact :: "pyobj \<Rightarrow> bool" where
  "PyLong_CheckExact (PyLong Exact v) = True"
| "PyLong_CheckExact obj = False"

fun PyFloat_CheckExact :: "pyobj \<Rightarrow> bool" where
  "PyFloat_CheckExact (PyFloat Exact v) = True"
| "PyFloat_CheckExact obj = False"

fun PyString_Check :: "pyobj \<Rightarrow> bool" where
  "PyString_Check (PyString c v) = True"
| "PyString_Check obj = False"

fun PyUnicode_Check :: "pyobj \<Rightarrow> bool" where
  "PyUnicode_Check (PyUnicode c v) = True"
| "PyUnicode_Check obj = False"

fun PyList_CheckExact :: "pyobj \<Rightarrow> bool" where
  "PyList_CheckExact (PyList Exact v) = True"
| "PyList_CheckExact obj = False"

fun PyTuple_CheckExact :: "pyobj \<Rightarrow> bool" where
  "PyTuple_CheckExact (PyTuple Exact v) = True"
| "PyTuple_CheckExact obj = False"

fun PyDict_CheckExact :: "pyobj \<Rightarrow> bool" where
  "PyDict_CheckExact (PyDict Exact v) = True"
| "PyDict_CheckExact obj = False"

fun PyFrozenSet_CheckExact :: "pyobj \<Rightarrow> bool" where
  "PyFrozenSet_CheckExact (PyFrozenSet Exact v) = True"
| "PyFrozenSet_CheckExact obj = False"

fun PyAnySet_CheckExact :: "pyobj \<Rightarrow> bool" where
  "PyAnySet_CheckExact (PySet Exact v) = True"
| "PyAnySet_CheckExact (PyFrozenSet Exact v) = True"
| "PyAnySet_CheckExact obj = False"

text \<open>
  \<^verbatim>\<open>PyLong_AsLongLong\<close>: the value of an int or long object; -1, with an error set, for an
  object that is not a number.
\<close>

fun PyLong_AsLongLong :: "pyobj \<Rightarrow> int" where
  "PyLong_AsLongLong (PyInt c v) = v"
| "PyLong_AsLongLong (PyLong c v) = v"
| "PyLong_AsLongLong (PyBool b) = (if b then 1 else 0)"
| "PyLong_AsLongLong obj = - 1"

text \<open>
  The \<^verbatim>\<open>ob_size\<close> field of a \<^verbatim>\<open>PyLongObject\<close> (\<^verbatim>\<open>longintrepr.h\<close>): the number of
  30-bit digits of the absolute value, negated for a negative number, 0 for zero.
\<close>

function ndigits :: "nat \<Rightarrow> nat" where
  "ndigits n = (if n = 0 then 0 else Suc (ndigits (n div 2 ^ 30)))"
  by pat_completeness auto
termination
  by (relation "measure (\<lambda>n. n)") auto

declare ndigits.simps [simp del]

fun ob_size :: "pyobj \<Rightarrow> int" where
  "ob_size (PyLong c v) = sgn v * int (ndigits (nat \<bar>v\<bar>))"
| "ob_size obj = 0"

subsection \<open>Type detection: \<^verbatim>\<open>getType\<close>\<close>

text \<open>
  The chain of tests of \<^verbatim>\<open>getType\<close>, in its order. The result 0 stands for the final
  \<^verbatim>\<open>PyErr_Format(PyExc_TypeError, ...); return 0\<close>.
\<close>

definition getType :: "codec \<Rightarrow> pyobj \<Rightarrow> byte" where
  "getType T obj =
     (if PyInt_CheckExact obj then
        (if PyLong_AsLongLong obj < 0 then NEG_INT_TYPE T else INT_TYPE T)
      else if PyLong_CheckExact obj then
        (if ob_size obj < 0 then NEG_LONG_TYPE T else LONG_TYPE T)
      else if PyFloat_CheckExact obj then FLOAT_TYPE T
      else if PyString_Check obj then STRING_TYPE T
      else if PyUnicode_Check obj then UNICODE_TYPE T
      else if PyList_CheckExact obj then LIST_TYPE T
      else if PyTuple_CheckExact obj then TUPLE_TYPE T
      else if PyDict_CheckExact obj then DICT_TYPE T
      else if obj = PyNone then NONE_TYPE T
      else if PyAnySet_CheckExact obj then
        (if PyFrozenSet_CheckExact obj then FROZEN_SET_TYPE T else SET_TYPE T)
      else 0)"

subsection \<open>Errors\<close>

text \<open>
  The C functions report a failure by their return value (\<^verbatim>\<open>serialize\<close>: nonzero,
  \<^verbatim>\<open>deserialize\<close>: \<^verbatim>\<open>NULL\<close>) with a Python exception set. The model returns the
  kind of the failure, named as in the specification: \<open>TypeMismatch\<close> for the
  \<^verbatim>\<open>TypeError\<close> of \<^verbatim>\<open>getType\<close> and of the \<^verbatim>\<open>default\<close> branch of \<^verbatim>\<open>serialize\<close>,
  \<open>UnrecognizedTag\<close> for the \<^verbatim>\<open>TypeError\<close> at the end of \<^verbatim>\<open>deserialize\<close>.
\<close>

datatype error =
    TypeMismatch
  | UnrecognizedTag
  | BufferUnderrun
  | MalformedBody
  | TextDecodeError
  | DepthExceeded

subsection \<open>Big-endian magnitudes\<close>

text \<open>The minimal big-endian bytes of a number (no leading zero byte; none at all for 0).\<close>

function be_bytes :: "nat \<Rightarrow> byte list" where
  "be_bytes n = (if n = 0 then [] else be_bytes (n div 256) @ [of_nat (n mod 256)])"
  by pat_completeness auto
termination
  by (relation "measure (\<lambda>n. n)") auto

declare be_bytes.simps [simp del]

text \<open>The number a byte sequence denotes, read big-endian.\<close>

definition be_value :: "byte list \<Rightarrow> nat" where
  "be_value bs = foldl (\<lambda>acc b. acc * 256 + unat b) 0 bs"

text \<open>A number in exactly \<open>k\<close> big-endian bytes (its low \<open>8 * k\<close> bits).\<close>

fun be_fixed :: "nat \<Rightarrow> nat \<Rightarrow> byte list" where
  "be_fixed 0 n = []"
| "be_fixed (Suc k) n = be_fixed k (n div 256) @ [of_nat (n mod 256)]"

subsection \<open>The VarSize prefix and the envelope headers\<close>

text \<open>
  Modelled from the spec: the size encoding inside the missing \<^verbatim>\<open>constructHeaders\<close> and
  \<^verbatim>\<open>parseHeaders\<close> (section 4.1). A size is an \<^verbatim>\<open>unsigned long long\<close>, as
  \<^verbatim>\<open>bodySize\<close> in \<^verbatim>\<open>serialize\<close>. A size up to 127 is one byte \<^verbatim>\<open>0x80 | n\<close>; a larger
  one is a byte whose low 7 bits hold the count \<open>k\<close> of magnitude bytes, high bit clear,
  then the \<open>k\<close> minimal big-endian bytes.
\<close>

definition encodeSize :: "64 word \<Rightarrow> byte list" where
  "encodeSize n =
     (if n \<le> 127 then [0x80 OR ucast n]
      else let bs = be_bytes (unat n) in (of_nat (length bs) AND 0x7F) # bs)"

text \<open>
  Modelled from the spec: reading a size back (section 4.1). A buffer is the unread rest
  of the input; reading returns the value and the rest after it. Too few bytes are a
  buffer underrun.
\<close>

type_synonym UserBuffer = "byte list"

definition decodeSize :: "UserBuffer \<Rightarrow> error + (64 word \<times> UserBuffer)" where
  "decodeSize buf =
     (case buf of
        [] \<Rightarrow> Inl BufferUnderrun
      | b # rest \<Rightarrow>
          if b AND 0x80 \<noteq> 0 then Inr (ucast (b AND 0x7F), rest)
          else let k = unat (b AND 0x7F) in
            if length rest < k then Inl BufferUnderrun
            else Inr (of_nat (be_value (take k rest)), drop k rest))"

text \<open>
  Modelled from the spec: the missing \<^verbatim>\<open>constructHeaders(&headers, &headerSize, bodySize,
  type)\<close>: the tag byte, then the size of the body (section 4.2).
\<close>

definition constructHeaders :: "64 word \<Rightarrow> byte \<Rightarrow> byte list" where
  "constructHeaders bodySize type = type # encodeSize bodySize"

text \<open>
  Modelled from the spec: the missing \<^verbatim>\<open>parseHeaders(buf, &type, &size)\<close>: one tag byte,
  the size of the body, and the test that the buffer still holds that many bytes
  (section 4.2). \<open>Inl\<close> is its nonzero return value.
\<close>

definition parseHeaders :: "UserBuffer \<Rightarrow> error + (byte \<times> 64 word \<times> UserBuffer)" where
  "parseHeaders buf =
     (case buf of
        [] \<Rightarrow> Inl BufferUnderrun
      | type # buf1 \<Rightarrow>
          (case decodeSize buf1 of
             Inl e \<Rightarrow> Inl e
           | Inr (sz, buf2) \<Rightarrow>
               if length buf2 < unat sz then Inl BufferUnderrun
               else Inr (type, sz, buf2)))"

subsection \<open>Payload encoders\<close>

text \<open>
  The per-kind encoders that \<^verbatim>\<open>serialize\<close> calls are not part of the sources. Each
  C helper \<^verbatim>\<open>serializeX(object, ..., &body, &bodySize)\<close> is modelled as a function to
  \<open>error + byte list\<close>: \<open>Inr body\<close> for the return value 0 (\<^verbatim>\<open>bodySize\<close> is the
  length of the body), \<open>Inl\<close> for a nonzero return value.
\<close>

text \<open>
  Modelled from the spec: the magnitude bytes of the missing \<^verbatim>\<open>serializeInt\<close> and
  \<^verbatim>\<open>serializeLong\<close> (section 4.3): the minimal big-endian bytes of the absolute value,
  zero being one zero byte; the sign is carried by the tag alone.
\<close>

definition int_magnitude :: "int \<Rightarrow> byte list" where
  "int_magnitude v = (if v = 0 then [0] else be_bytes (nat \<bar>v\<bar>))"

text \<open>Modelled from the spec: the missing \<^verbatim>\<open>serializeInt\<close> (section 4.3).\<close>

definition serializeInt :: "pyobj \<Rightarrow> byte \<Rightarrow> error + byte list" where
  "serializeInt object type =
     (case object of PyInt c v \<Rightarrow> Inr (int_magnitude v) | _ \<Rightarrow> Inl TypeMismatch)"

text \<open>Modelled from the spec: the missing \<^verbatim>\<open>serializeLong\<close> (section 4.3).\<close>

definition serializeLong :: "pyobj \<Rightarrow> byte \<Rightarrow> error + byte list" where
  "serializeLong object type =
     (case object of PyLong c v \<Rightarrow> Inr (int_magnitude v) | _ \<Rightarrow> Inl TypeMismatch)"

text \<open>
  Modelled from the spec: the missing \<^verbatim>\<open>serializeFloat\<close> (section 4.3): the 8 bytes of
  the bit pattern, most significant first.
\<close>

definition serializeFloat :: "pyobj \<Rightarrow> error + byte list" where
  "serializeFloat object =
     (case object of PyFloat c w \<Rightarrow> Inr (be_fixed 8 (unat w)) | _ \<Rightarrow> Inl TypeMismatch)"

text \<open>Modelled from the spec: the missing \<^verbatim>\<open>serializeBytes\<close> (section 4.3): the raw bytes.\<close>

definition serializeBytes :: "pyobj \<Rightarrow> error + byte list" where
  "serializeBytes object =
     (case object of PyString c bs \<Rightarrow> Inr bs | _ \<Rightarrow> Inl TypeMismatch)"

text \<open>
  Modelled from the spec: the missing \<^verbatim>\<open>serializeUnicode\<close> (section 4.3): the bytes of
  the text under the codec's encoding.
\<close>

definition serializeUnicode :: "pyobj \<Rightarrow> error + byte list" where
  "serializeUnicode object =
     (case object of PyUnicode c bs \<Rightarrow> Inr bs | _ \<Rightarrow> Inl TypeMismatch)"

text \<open>
  Modelled from the spec: the missing \<^verbatim>\<open>serializeBool(&body, &bodySize)\<close> and
  \<^verbatim>\<open>serializeNone(&body, &bodySize)\<close> (section 4.3): an empty body.
\<close>

definition serializeBool :: "error + byte list" where
  "serializeBool = Inr []"

definition serializeNone :: "error + byte list" where
  "serializeNone = Inr []"

subsection \<open>The encode path: \<^verbatim>\<open>serialize\<close>\<close>

text \<open>
  The output parameters of \<^verbatim>\<open>serialize\<close>: the string \<^verbatim>\<open>*out\<close> (\<open>None\<close> while no
  string is allocated) and \<^verbatim>\<open>*outSize\<close>. \<open>produced\<close> is the serialization that a
  successful call hands over: the first \<^verbatim>\<open>*outSize\<close> bytes of \<^verbatim>\<open>*out\<close>.
\<close>

type_synonym out_params = "byte list option \<times> 64 word"

definition produced :: "out_params \<Rightarrow> byte list" where
  "produced p = (case fst p of None \<Rightarrow> [] | Some blk \<Rightarrow> take (unat (snd p)) blk)"

text \<open>
  \<^verbatim>\<open>serialize\<close> returns \<open>Inl e\<close> for \<^verbatim>\<open>return 1\<close> with the Python error \<open>e\<close> set and
  \<open>Inr ()\<close> for \<^verbatim>\<open>return 0\<close>, together with the output parameters as the call leaves
  them. The chain of tests on \<open>type\<close> is the \<^verbatim>\<open>switch\<close>, its last branch the
  \<^verbatim>\<open>default\<close>. On success the allocated string is the headers, the body and the
  terminating zero byte of \<^verbatim>\<open>malloc(bodySize + headerSize + 1)\<close> with \<^verbatim>\<open>memset\<close>.

  Modelled from the spec: the missing container encoders \<^verbatim>\<open>serializeList\<close>,
  \<^verbatim>\<open>serializeTuple\<close>, \<^verbatim>\<open>serializeDict\<close> and \<^verbatim>\<open>serializeSet\<close> (section 4.4): the
  element count as a VarSize, then the envelope of every element (of every key and its
  value, for a dictionary) in iteration order, each obtained by a call of
  \<^verbatim>\<open>serialize\<close>. \<open>serializeItems\<close> and \<open>serializePairs\<close> are their loops.
\<close>

function serialize :: "codec \<Rightarrow> pyobj \<Rightarrow> out_params \<Rightarrow> (error + unit) \<times> out_params"
  and serializeList :: "codec \<Rightarrow> pyobj \<Rightarrow> error + byte list"
  and serializeTuple :: "codec \<Rightarrow> pyobj \<Rightarrow> error + byte list"
  and serializeDict :: "codec \<Rightarrow> pyobj \<Rightarrow> error + byte list"
  and serializeSet :: "codec \<Rightarrow> pyobj \<Rightarrow> error + byte list"
  and serializeItems :: "codec \<Rightarrow> pyobj list \<Rightarrow> error + byte list"
  and serializePairs :: "codec \<Rightarrow> (pyobj \<times> pyobj) list \<Rightarrow> error + byte list"
where
  "serialize T object outp =
     (let type = getType T object in
      if type = 0 then (Inl TypeMismatch, outp)
      else
        case
          (if type = INT_TYPE T \<or> type = NEG_INT_TYPE T then serializeInt object type
           else if type = LONG_TYPE T \<or> type = NEG_LONG_TYPE T then serializeLong object type
           else if type = FLOAT_TYPE T then serializeFloat object
           else if type = BYTES_TYPE T then serializeBytes object
           else if type = UNICODE_TYPE T then serializeUnicode object
           else if type = LIST_TYPE T then serializeList T object
           else if type = TUPLE_TYPE T then serializeTuple T object
           else if type = DICT_TYPE T then serializeDict T object
           else if type = SET_TYPE T \<or> type = FROZEN_SET_TYPE T then serializeSet T object
           else if type = BOOL_TRUE_TYPE T \<or> type = BOOL_FALSE_TYPE T then serializeBool
           else if type = NONE_TYPE T then serializeNone
           else Inl TypeMismatch)
        of
          Inl e \<Rightarrow> (Inl e, outp)
        | Inr body \<Rightarrow>
            (let bodySize = of_nat (length body);
                 headers = constructHeaders bodySize type;
                 headerSize = of_nat (length headers)
             in (Inr (), (Some (headers @ body @ [0]), headerSize + bodySize))))"
| "serializeList T object =
     (case object of
        PyList c items \<Rightarrow>
          (case serializeItems T items of
             Inl e \<Rightarrow> Inl e
           | Inr bs \<Rightarrow> Inr (encodeSize (of_nat (length items)) @ bs))
      | _ \<Rightarrow> Inl TypeMismatch)"
| "serializeTuple T object =
     (case object of
        PyTuple c items \<Rightarrow>
          (case serializeItems T items of
             Inl e \<Rightarrow> Inl e
           | Inr bs \<Rightarrow> Inr (encodeSize (of_nat (length items)) @ bs))
      | _ \<Rightarrow> Inl TypeMismatch)"
| "serializeDict T object =
     (case object of
        PyDict c pairs \<Rightarrow>
          (case serializePairs T pairs of
             Inl e \<Rightarrow> Inl e
           | Inr bs \<Rightarrow> Inr (encodeSize (of_nat (length pairs)) @ bs))
      | _ \<Rightarrow> Inl TypeMismatch)"
| "serializeSet T object =
     (case object of
        PySet c items \<Rightarrow>
          (case serializeItems T items of
             Inl e \<Rightarrow> Inl e
           | Inr bs \<Rightarrow> Inr (encodeSize (of_nat (length items)) @ bs))
      | PyFrozenSet c items \<Rightarrow>
          (case serializeItems T items of
             Inl e \<Rightarrow> Inl e
           | Inr bs \<Rightarrow> Inr (encodeSize (of_nat (length items)) @ bs))
      | _ \<Rightarrow> Inl TypeMismatch)"
| "serializeItems T [] = Inr []"
| "serializeItems T (item # items) =
     (case serialize T item (None, 0) of
        (Inl e, p) \<Rightarrow> Inl e
      | (Inr u, p) \<Rightarrow>
          (case serializeItems T items of
             Inl e \<Rightarrow> Inl e
           | Inr bs \<Rightarrow> Inr (produced p @ bs)))"
| "serializePairs T [] = Inr []"
| "serializePairs T ((k, v) # pairs) =
     (case serialize T k (None, 0) of
        (Inl e, p) \<Rightarrow> Inl e
      | (Inr u, p) \<Rightarrow>
          (case serialize T v (None, 0) of
             (Inl e, q) \<Rightarrow> Inl e
           | (Inr u, q) \<Rightarrow>
               (case serializePairs T pairs of
                  Inl e \<Rightarrow> Inl e
                | Inr bs \<Rightarrow> Inr (produced p @ produced q @ bs))))"
  by pat_completeness auto
termination
  by (relation "measure (\<lambda>x. case x of
        Inl (Inl (T, obj, p)) \<Rightarrow> 2 * size obj + 1
      | Inl (Inr (Inl (T, obj))) \<Rightarrow> 2 * size obj
      | Inl (Inr (Inr (T, obj))) \<Rightarrow> 2 * size obj
      | Inr (Inl (Inl (T, obj))) \<Rightarrow> 2 * size obj
      | Inr (Inl (Inr (T, obj))) \<Rightarrow> 2 * size obj
      | Inr (Inr (Inl (T, items))) \<Rightarrow> 2 * size_list size items
      | Inr (Inr (Inr (T, pairs))) \<Rightarrow> 2 * size_list (size_prod size size) pairs)")
    auto

declare serialize.simps [simp del] serializeList.simps [simp del]
  serializeTuple.simps [simp del] serializeDict.simps [simp del] serializeSet.simps [simp del]

subsection \<open>Equality of values\<close>

text \<open>
  The codec's equality of two values: the same contents for scalars, element by element
  for lists and tuples, the same entries for dictionaries, the same members for sets and
  frozensets.
\<close>

fun py_eq :: "pyobj \<Rightarrow> pyobj \<Rightarrow> bool" where
  "py_eq (PyInt c v) b = (b = PyInt c v)"
| "py_eq (PyLong c v) b = (b = PyLong c v)"
| "py_eq (PyFloat c v) b = (b = PyFloat c v)"
| "py_eq (PyString c v) b = (b = PyString c v)"
| "py_eq (PyUnicode c v) b = (b = PyUnicode c v)"
| "py_eq (PyList c xs) b =
     (case b of PyList d ys \<Rightarrow> c = d \<and> list_all2 py_eq xs ys | _ \<Rightarrow> False)"
| "py_eq (PyTuple c xs) b =
     (case b of PyTuple d ys \<Rightarrow> c = d \<and> list_all2 py_eq xs ys | _ \<Rightarrow> False)"
| "py_eq (PyDict c xs) b =
     (case b of
        PyDict d ys \<Rightarrow>
          c = d \<and> (\<forall>(k, v) \<in> set xs. \<exists>(k', v') \<in> set ys. py_eq k k' \<and> py_eq v v')
                \<and> (\<forall>(k', v') \<in> set ys. \<exists>(k, v) \<in> set xs. py_eq k k' \<and> py_eq v v')
      | _ \<Rightarrow> False)"
| "py_eq (PySet c xs) b =
     (case b of
        PySet d ys \<Rightarrow>
          c = d \<and> (\<forall>x \<in> set xs. \<exists>y \<in> set ys. py_eq x y)
                \<and> (\<forall>y \<in> set ys. \<exists>x \<in> set xs. py_eq x y)
      | _ \<Rightarrow> False)"
| "py_eq (PyFrozenSet c xs) b =
     (case b of
        PyFrozenSet d ys \<Rightarrow>
          c = d \<and> (\<forall>x \<in> set xs. \<exists>y \<in> set ys. py_eq x y)
                \<and> (\<forall>y \<in> set ys. \<exists>x \<in> set xs. py_eq x y)
      | _ \<Rightarrow> False)"
| "py_eq (PyBool v) b = (b = PyBool v)"
| "py_eq PyNone b = (b = PyNone)"
| "py_eq (PyOther n) b = (b = PyOther n)"

subsection \<open>Payload decoders\<close>

text \<open>
  The per-kind decoders that \<^verbatim>\<open>deserialize\<close> calls are not part of the sources. A
  decoder that reads from the buffer returns the object together with the buffer it
  leaves behind; \<open>Inl\<close> stands for the result \<^verbatim>\<open>NULL\<close>.
\<close>

text \<open>
  Modelled from the spec: taking the next \<open>n\<close> bytes from the buffer cursor
  (section 2, buffer cursor); fewer remaining bytes are a buffer underrun (section 7).
\<close>

definition readBytes :: "nat \<Rightarrow> UserBuffer \<Rightarrow> error + (byte list \<times> UserBuffer)" where
  "readBytes n buf =
     (if length buf < n then Inl BufferUnderrun else Inr (take n buf, drop n buf))"

text \<open>
  Modelled from the spec: the missing \<^verbatim>\<open>deserializeInt(buf, type, size)\<close> (section 4.3):
  the body is the big-endian magnitude, the sign comes from the tag.
\<close>

definition deserializeInt ::
  "codec \<Rightarrow> UserBuffer \<Rightarrow> byte \<Rightarrow> 64 word \<Rightarrow> error + (pyobj \<times> UserBuffer)" where
  "deserializeInt T buf type sz =
     (case readBytes (unat sz) buf of
        Inl e \<Rightarrow> Inl e
      | Inr (bs, buf') \<Rightarrow>
          Inr (PyInt Exact (if type = NEG_INT_TYPE T then - int (be_value bs)
                            else int (be_value bs)), buf'))"

text \<open>Modelled from the spec: the missing \<^verbatim>\<open>deserializeLong(buf, type, size)\<close> (section 4.3).\<close>

definition deserializeLong ::
  "codec \<Rightarrow> UserBuffer \<Rightarrow> byte \<Rightarrow> 64 word \<Rightarrow> error + (pyobj \<times> UserBuffer)" where
  "deserializeLong T buf type sz =
     (case readBytes (unat sz) buf of
        Inl e \<Rightarrow> Inl e
      | Inr (bs, buf') \<Rightarrow>
          Inr (PyLong Exact (if type = NEG_LONG_TYPE T then - int (be_value bs)
                             else int (be_value bs)), buf'))"

text \<open>
  Modelled from the spec: the missing \<^verbatim>\<open>deserializeFloat(buf)\<close> (section 4.3): the
  next 8 bytes are the bit pattern.
\<close>

definition deserializeFloat :: "UserBuffer \<Rightarrow> error + (pyobj \<times> UserBuffer)" where
  "deserializeFloat buf =
     (case readBytes 8 buf of
        Inl e \<Rightarrow> Inl e
      | Inr (bs, buf') \<Rightarrow> Inr (PyFloat Exact (of_nat (be_value bs)), buf'))"

text \<open>
  Modelled from the spec: the missing \<^verbatim>\<open>deserializeUnicode(buf, size)\<close> (section 4.3):
  bytes that are not valid text are rejected.
\<close>

definition deserializeUnicode ::
  "codec \<Rightarrow> UserBuffer \<Rightarrow> 64 word \<Rightarrow> error + (pyobj \<times> UserBuffer)" where
  "deserializeUnicode T buf sz =
     (case readBytes (unat sz) buf of
        Inl e \<Rightarrow> Inl e
      | Inr (bs, buf') \<Rightarrow>
          if text_valid T bs then Inr (PyUnicode Exact bs, buf') else Inl TextDecodeError)"

text \<open>Modelled from the spec: the missing \<^verbatim>\<open>deserializeBytes(buf, size)\<close> (section 4.3).\<close>

definition deserializeBytes :: "UserBuffer \<Rightarrow> 64 word \<Rightarrow> error + (pyobj \<times> UserBuffer)" where
  "deserializeBytes buf sz =
     (case readBytes (unat sz) buf of
        Inl e \<Rightarrow> Inl e
      | Inr (bs, buf') \<Rightarrow> Inr (PyString Exact bs, buf'))"

text \<open>
  Modelled from the spec: the missing \<^verbatim>\<open>deserializeBool(type)\<close> and
  \<^verbatim>\<open>deserializeNone()\<close> (section 4.3): the tag alone is the payload. The calls in
  \<^verbatim>\<open>deserialize\<close> pass neither the buffer nor the size.
\<close>

definition deserializeBool :: "codec \<Rightarrow> byte \<Rightarrow> pyobj" where
  "deserializeBool T type = PyBool (type = BOOL_TRUE_TYPE T)"

definition deserializeNone :: pyobj where
  "deserializeNone = PyNone"

text \<open>
  Modelled from the spec: how the missing \<^verbatim>\<open>deserializeSet\<close> and \<^verbatim>\<open>deserializeDict\<close>
  collect what they decode (section 4.4): an element equal to one already in the set is
  dropped; a repeated key keeps its place and takes the later value.
\<close>

definition set_add :: "pyobj list \<Rightarrow> pyobj \<Rightarrow> pyobj list" where
  "set_add acc x = (if \<exists>y \<in> set acc. py_eq y x then acc else acc @ [x])"

definition dict_set :: "(pyobj \<times> pyobj) list \<Rightarrow> pyobj \<times> pyobj \<Rightarrow> (pyobj \<times> pyobj) list" where
  "dict_set acc kv =
     (if \<exists>(k', v') \<in> set acc. py_eq k' (fst kv)
      then map (\<lambda>(k', v'). if py_eq k' (fst kv) then (k', snd kv) else (k', v')) acc
      else acc @ [kv])"

subsection \<open>The decode path: \<^verbatim>\<open>deserialize\<close>\<close>

text \<open>
  The chain of tests on \<open>type\<close> is the \<^verbatim>\<open>switch\<close> of \<^verbatim>\<open>deserialize\<close>, in its
  order; the last branch is the \<^verbatim>\<open>PyErr_Format\<close> and \<^verbatim>\<open>return NULL\<close> after it.

  Modelled from the spec: the missing container decoders \<^verbatim>\<open>deserializeList(buf)\<close>,
  \<^verbatim>\<open>deserializeTuple(buf)\<close>, \<^verbatim>\<open>deserializeDict(buf)\<close> and
  \<^verbatim>\<open>deserializeSet(buf, type)\<close> (section 4.4): a VarSize count \<open>n\<close>, then \<open>n\<close>
  calls of \<^verbatim>\<open>deserialize\<close> (\<open>2 * n\<close> for a dictionary) on the same buffer.
  \<open>deserializeItems\<close> and \<open>deserializePairs\<close> are their loops.
\<close>

function deserialize :: "codec \<Rightarrow> UserBuffer \<Rightarrow> error + (pyobj \<times> UserBuffer)"
  and deserializeList :: "codec \<Rightarrow> UserBuffer \<Rightarrow> error + (pyobj \<times> UserBuffer)"
  and deserializeTuple :: "codec \<Rightarrow> UserBuffer \<Rightarrow> error + (pyobj \<times> UserBuffer)"
  and deserializeDict :: "codec \<Rightarrow> UserBuffer \<Rightarrow> error + (pyobj \<times> UserBuffer)"
  and deserializeSet :: "codec \<Rightarrow> UserBuffer \<Rightarrow> byte \<Rightarrow> error + (pyobj \<times> UserBuffer)"
  and deserializeItems :: "codec \<Rightarrow> nat \<Rightarrow> UserBuffer \<Rightarrow> error + (pyobj list \<times> UserBuffer)"
  and deserializePairs ::
    "codec \<Rightarrow> nat \<Rightarrow> UserBuffer \<Rightarrow> error + ((pyobj \<times> pyobj) list \<times> UserBuffer)"
where
  "deserialize T buf =
     (case parseHeaders buf of
        Inl e \<Rightarrow> Inl e
      | Inr (type, sz, buf1) \<Rightarrow>
          if type = INT_TYPE T \<or> type = NEG_INT_TYPE T then deserializeInt T buf1 type sz
          else if type = LONG_TYPE T \<or> type = NEG_LONG_TYPE T then deserializeLong T buf1 type sz
          else if type = FLOAT_TYPE T then deserializeFloat buf1
          else if type = UNICODE_TYPE T then deserializeUnicode T buf1 sz
          else if type = BYTES_TYPE T then deserializeBytes buf1 sz
          else if type = LIST_TYPE T then deserializeList T buf1
          else if type = TUPLE_TYPE T then deserializeTuple T buf1
          else if type = DICT_TYPE T then deserializeDict T buf1
          else if type = SET_TYPE T \<or> type = FROZEN_SET_TYPE T then deserializeSet T buf1 type
          else if type = BOOL_TRUE_TYPE T \<or> type = BOOL_FALSE_TYPE T
            then Inr (deserializeBool T type, buf1)
          else if type = NONE_TYPE T then Inr (deserializeNone, buf1)
          else Inl UnrecognizedTag)"
| "deserializeList T buf =
     (case decodeSize buf of
        Inl e \<Rightarrow> Inl e
      | Inr (n, buf1) \<Rightarrow>
          (case deserializeItems T (unat n) buf1 of
             Inl e \<Rightarrow> Inl e
           | Inr (items, buf2) \<Rightarrow> Inr (PyList Exact items, buf2)))"
| "deserializeTuple T buf =
     (case decodeSize buf of
        Inl e \<Rightarrow> Inl e
      | Inr (n, buf1) \<Rightarrow>
          (case deserializeItems T (unat n) buf1 of
             Inl e \<Rightarrow> Inl e
           | Inr (items, buf2) \<Rightarrow> Inr (PyTuple Exact items, buf2)))"
| "deserializeDict T buf =
     (case decodeSize buf of
        Inl e \<Rightarrow> Inl e
      | Inr (n, buf1) \<Rightarrow>
          (case deserializePairs T (unat n) buf1 of
             Inl e \<Rightarrow> Inl e
           | Inr (pairs, buf2) \<Rightarrow> Inr (PyDict Exact (foldl dict_set [] pairs), buf2)))"
| "deserializeSet T buf type =
     (case decodeSize buf of
        Inl e \<Rightarrow> Inl e
      | Inr (n, buf1) \<Rightarrow>
          (case deserializeItems T (unat n) buf1 of
             Inl e \<Rightarrow> Inl e
           | Inr (items, buf2) \<Rightarrow>
               if type = FROZEN_SET_TYPE T
               then Inr (PyFrozenSet Exact (foldl set_add [] items), buf2)
               else Inr (PySet Exact (foldl set_add [] items), buf2)))"
| "deserializeItems T 0 buf = Inr ([], buf)"
| "deserializeItems T (Suc n) buf =
     (case deserialize T buf of
        Inl e \<Rightarrow> Inl e
      | Inr (item, buf1) \<Rightarrow>
          (case deserializeItems T n buf1 of
             Inl e \<Rightarrow> Inl e
           | Inr (items, buf2) \<Rightarrow> Inr (item # items, buf2)))"
| "deserializePairs T 0 buf = Inr ([], buf)"
| "deserializePairs T (Suc n) buf =
     (case deserialize T buf of
        Inl e \<Rightarrow> Inl e
      | Inr (k, buf1) \<Rightarrow>
          (case deserialize T buf1 of
             Inl e \<Rightarrow> Inl e
           | Inr (v, buf2) \<Rightarrow>
               (case deserializePairs T n buf2 of
                  Inl e \<Rightarrow> Inl e
                | Inr (pairs, buf3) \<Rightarrow> Inr ((k, v) # pairs, buf3))))"
  by pat_completeness auto

text \<open>
  Termination: a call of \<open>deserialize\<close> never returns a longer buffer than it was given,
  and \<open>parseHeaders\<close> and \<open>decodeSize\<close> consume at least one byte.
\<close>

abbreviation deserialize_dom where
  "deserialize_dom \<equiv> deserialize_deserializeList_deserializeTuple_deserializeDict_deserializeSet_deserializeItems_deserializePairs_dom"

definition shrinks :: "UserBuffer \<Rightarrow> error + ('a \<times> UserBuffer) \<Rightarrow> bool" where
  "shrinks buf r = (case r of Inl e \<Rightarrow> True | Inr (x, buf') \<Rightarrow> length buf' \<le> length buf)"

lemma readBytes_length:
  "readBytes n buf = Inr (bs, buf') \<Longrightarrow> length bs = n \<and> length buf' + n = length buf \<and> buf = bs @ buf'"
  by (auto simp: readBytes_def split: if_splits)

lemma decodeSize_length:
  "decodeSize buf = Inr (n, buf') \<Longrightarrow> length buf' < length buf"
  by (auto simp: decodeSize_def Let_def split: list.splits if_splits)

lemma parseHeaders_length:
  "parseHeaders buf = Inr (t, n, buf') \<Longrightarrow> length buf' < length buf"
  by (auto simp: parseHeaders_def split: list.splits sum.splits if_splits
           dest!: decodeSize_length)

lemma shrinks_simps [simp]:
  "shrinks buf (Inl e)"
  "shrinks buf (Inr (x, buf')) = (length buf' \<le> length buf)"
  by (simp_all add: shrinks_def)

lemma shrinks_mono: "shrinks buf1 r \<Longrightarrow> length buf1 \<le> length buf \<Longrightarrow> shrinks buf r"
  by (auto simp: shrinks_def split: sum.splits)

lemma shrinks_readBytes: "shrinks buf (readBytes n buf)"
  by (simp add: readBytes_def)

lemma shrinks_scalar:
  "shrinks buf (deserializeInt T buf t n)"
  "shrinks buf (deserializeLong T buf t n)"
  "shrinks buf (deserializeFloat buf)"
  "shrinks buf (deserializeUnicode T buf n)"
  "shrinks buf (deserializeBytes buf n)"
  by (simp_all add: deserializeInt_def deserializeLong_def deserializeFloat_def
        deserializeUnicode_def deserializeBytes_def readBytes_def)

lemma deserialize_shrinks:
  shows "deserialize_dom (Inl (Inl (T, buf))) \<Longrightarrow> shrinks buf (deserialize T buf)"
    and "deserialize_dom (Inl (Inr (Inl (T, buf)))) \<Longrightarrow> shrinks buf (deserializeList T buf)"
    and "deserialize_dom (Inl (Inr (Inr (T, buf)))) \<Longrightarrow> shrinks buf (deserializeTuple T buf)"
    and "deserialize_dom (Inr (Inl (Inl (T, buf)))) \<Longrightarrow> shrinks buf (deserializeDict T buf)"
    and "deserialize_dom (Inr (Inl (Inr (T, buf, ty)))) \<Longrightarrow> shrinks buf (deserializeSet T buf ty)"
    and "deserialize_dom (Inr (Inr (Inl (T, n, buf)))) \<Longrightarrow> shrinks buf (deserializeItems T n buf)"
    and "deserialize_dom (Inr (Inr (Inr (T, n, buf)))) \<Longrightarrow> shrinks buf (deserializePairs T n buf)"
proof (induct rule: deserialize_deserializeList_deserializeTuple_deserializeDict_deserializeSet_deserializeItems_deserializePairs.pinduct)
  case (1 T buf)
  show ?case
  proof (cases "parseHeaders buf")
    case (Inl e)
    then show ?thesis by (simp add: deserialize.psimps [OF 1(1)])
  next
    case (Inr r)
    then obtain type sz buf1 where ph: "parseHeaders buf = Inr (type, sz, buf1)"
      by (cases r) auto
    have len: "length buf1 \<le> length buf"
      using parseHeaders_length [OF ph] by simp
    note m = shrinks_mono [OF _ len]
    note ih = 1(2-5) [OF ph refl refl]
    show ?thesis
      by (simp add: deserialize.psimps [OF 1(1)] ph m shrinks_scalar ih len)
  qed
next
  case (2 T buf)
  show ?case
  proof (cases "decodeSize buf")
    case (Inl e)
    then show ?thesis by (simp add: deserializeList.psimps [OF 2(1)])
  next
    case (Inr r)
    then obtain n buf1 where ds: "decodeSize buf = Inr (n, buf1)" by (cases r) auto
    have len: "length buf1 \<le> length buf" using decodeSize_length [OF ds] by simp
    show ?thesis
      using shrinks_mono [OF 2(2) [OF ds refl] len]
      by (auto simp: deserializeList.psimps [OF 2(1)] ds shrinks_def split: sum.splits)
  qed
next
  case (3 T buf)
  show ?case
  proof (cases "decodeSize buf")
    case (Inl e)
    then show ?thesis by (simp add: deserializeTuple.psimps [OF 3(1)])
  next
    case (Inr r)
    then obtain n buf1 where ds: "decodeSize buf = Inr (n, buf1)" by (cases r) auto
    have len: "length buf1 \<le> length buf" using decodeSize_length [OF ds] by simp
    show ?thesis
      using shrinks_mono [OF 3(2) [OF ds refl] len]
      by (auto simp: deserializeTuple.psimps [OF 3(1)] ds shrinks_def split: sum.splits)
  qed
next
  case (4 T buf)
  show ?case
  proof (cases "decodeSize buf")
    case (Inl e)
    then show ?thesis by (simp add: deserializeDict.psimps [OF 4(1)])
  next
    case (Inr r)
    then obtain n buf1 where ds: "decodeSize buf = Inr (n, buf1)" by (cases r) auto
    have len: "length buf1 \<le> length buf" using decodeSize_length [OF ds] by simp
    show ?thesis
      using shrinks_mono [OF 4(2) [OF ds refl] len]
      by (auto simp: deserializeDict.psimps [OF 4(1)] ds shrinks_def split: sum.splits)
  qed
next
  case (5 T buf type)
  show ?case
  proof (cases "decodeSize buf")
    case (Inl e)
    then show ?thesis by (simp add: deserializeSet.psimps [OF 5(1)])
  next
    case (Inr r)
    then obtain n buf1 where ds: "decodeSize buf = Inr (n, buf1)" by (cases r) auto
    have len: "length buf1 \<le> length buf" using decodeSize_length [OF ds] by simp
    show ?thesis
      using shrinks_mono [OF 5(2) [OF ds refl] len]
      by (auto simp: deserializeSet.psimps [OF 5(1)] ds shrinks_def split: sum.splits)
  qed
next
  case (6 T buf)
  then show ?case by (simp add: deserializeItems.psimps)
next
  case (7 T n buf)
  show ?case
  proof (cases "deserialize T buf")
    case (Inl e)
    then show ?thesis by (simp add: deserializeItems.psimps(2) [OF 7(1)])
  next
    case (Inr r)
    then obtain x buf1 where d: "deserialize T buf = Inr (x, buf1)" by (cases r) auto
    from 7(2) d have len: "length buf1 \<le> length buf" by simp
    show ?thesis
      using shrinks_mono [OF 7(3) [OF d refl] len]
      by (auto simp: deserializeItems.psimps(2) [OF 7(1)] d shrinks_def split: sum.splits)
  qed
next
  case (8 T buf)
  then show ?case by (simp add: deserializePairs.psimps)
next
  case (9 T n buf)
  show ?case
  proof (cases "deserialize T buf")
    case (Inl e)
    then show ?thesis by (simp add: deserializePairs.psimps(2) [OF 9(1)])
  next
    case (Inr r)
    then obtain k buf1 where d: "deserialize T buf = Inr (k, buf1)" by (cases r) auto
    from 9(2) d have len: "length buf1 \<le> length buf" by simp
    show ?thesis
    proof (cases "deserialize T buf1")
      case (Inl e)
      then show ?thesis by (simp add: deserializePairs.psimps(2) [OF 9(1)] d)
    next
      case (Inr r2)
      then obtain v buf2 where d2: "deserialize T buf1 = Inr (v, buf2)" by (cases r2) auto
      from 9(3) [OF d refl] d2 have len2: "length buf2 \<le> length buf1" by simp
      with len have len3: "length buf2 \<le> length buf" by simp
      show ?thesis
        using shrinks_mono [OF 9(4) [OF d refl d2 refl] len3]
        by (auto simp: deserializePairs.psimps(2) [OF 9(1)] d d2 shrinks_def split: sum.splits)
    qed
  qed
qed

termination deserialize
proof (relation "inv_image (less_than <*lex*> less_than) (\<lambda>x. case x of
        Inl (Inl (T, buf)) \<Rightarrow> (length buf, 0)
      | Inl (Inr (Inl (T, buf))) \<Rightarrow> (length buf, 0)
      | Inl (Inr (Inr (T, buf))) \<Rightarrow> (length buf, 0)
      | Inr (Inl (Inl (T, buf))) \<Rightarrow> (length buf, 0)
      | Inr (Inl (Inr (T, buf, type))) \<Rightarrow> (length buf, 0)
      | Inr (Inr (Inl (T, n, buf))) \<Rightarrow> (length buf, Suc n)
      | Inr (Inr (Inr (T, n, buf))) \<Rightarrow> (length buf, Suc n))", goal_cases)
  case 1
  show ?case by (intro wf_inv_image wf_lex_prod wf_less_than)
next
  case (2 T buf b x y xa ya)
  then show ?case using parseHeaders_length [of buf x xa ya] by simp
next
  case (3 T buf b x y xa ya)
  then show ?case using parseHeaders_length [of buf x xa ya] by simp
next
  case (4 T buf b x y xa ya)
  then show ?case using parseHeaders_length [of buf x xa ya] by simp
next
  case (5 T buf b x y xa ya)
  then show ?case using parseHeaders_length [of buf x xa ya] by simp
next
  case (6 T buf b x y)
  then show ?case using decodeSize_length [of buf x y] by simp
next
  case (7 T buf b x y)
  then show ?case using decodeSize_length [of buf x y] by simp
next
  case (8 T buf b x y)
  then show ?case using decodeSize_length [of buf x y] by simp
next
  case (9 T buf type b x y)
  then show ?case using decodeSize_length [of buf x y] by simp
next
  case (10 T n buf)
  show ?case by simp
next
  case (11 T n buf b x y)
  then show ?case using deserialize_shrinks(1) [of T buf] by auto
next
  case (12 T n buf)
  show ?case by simp
next
  case (13 T n buf b x y)
  then show ?case using deserialize_shrinks(1) [of T buf] by auto
next
  case (14 T n buf b x y ba xa ya)
  then show ?case
    using deserialize_shrinks(1) [of T buf] deserialize_shrinks(1) [of T y] by auto
qed

declare deserialize.simps [simp del] deserializeList.simps [simp del]
  deserializeTuple.simps [simp del] deserializeDict.simps [simp del]
  deserializeSet.simps [simp del]

subsection \<open>Values of the data model and sizes\<close>

text \<open>
  The part of \<^verbatim>\<open>serialize\<close> after its \<^verbatim>\<open>switch\<close>, as a function of the result \<open>r\<close> of
  the encoder that the \<^verbatim>\<open>switch\<close> selected.
\<close>

definition finish :: "out_params \<Rightarrow> byte \<Rightarrow> error + byte list \<Rightarrow> (error + unit) \<times> out_params" where
  "finish outp type r =
     (case r of
        Inl e \<Rightarrow> (Inl e, outp)
      | Inr body \<Rightarrow>
          (Inr (), (Some (constructHeaders (of_nat (length body)) type @ body @ [0]),
             of_nat (length (constructHeaders (of_nat (length body)) type))
               + of_nat (length body))))"

text \<open>
  The sizes of a call of \<^verbatim>\<open>serialize\<close> did not wrap around: the allocated string is
  one byte (the terminating zero) longer than \<^verbatim>\<open>*outSize\<close>.
\<close>

definition block_fits :: "(error + unit) \<times> out_params \<Rightarrow> bool" where
  "block_fits r =
     (case r of
        (Inr u, (Some blk, n)) \<Rightarrow> length blk = unat n + 1
      | _ \<Rightarrow> True)"

text \<open>No two elements of a sequence are equal, as in a set and among the keys of a
  dictionary.\<close>

fun pairwise_ne :: "pyobj list \<Rightarrow> bool" where
  "pairwise_ne [] = True"
| "pairwise_ne (x # xs) = ((\<forall>y \<in> set xs. \<not> py_eq x y) \<and> pairwise_ne xs)"

text \<open>
  The supported values: the kinds of the specification's data model (section 3), which
  are the types the README lists. An integer, long, float, byte string, text, boolean or
  None; a list, tuple, set, frozenset or dictionary of supported values. Every object is
  an instance of the built-in type itself, a text is valid under the codec's encoding,
  and the elements of a set and the keys of a dictionary are pairwise different.
\<close>

fun supported :: "codec \<Rightarrow> pyobj \<Rightarrow> bool" where
  "supported T (PyInt c v) = (c = Exact)"
| "supported T (PyLong c v) = (c = Exact)"
| "supported T (PyFloat c w) = (c = Exact)"
| "supported T (PyString c bs) = (c = Exact)"
| "supported T (PyUnicode c bs) = (c = Exact \<and> text_valid T bs)"
| "supported T (PyList c xs) = (c = Exact \<and> (\<forall>x \<in> set xs. supported T x))"
| "supported T (PyTuple c xs) = (c = Exact \<and> (\<forall>x \<in> set xs. supported T x))"
| "supported T (PyDict c kvs) =
     (c = Exact \<and> (\<forall>(k, v) \<in> set kvs. supported T k \<and> supported T v)
      \<and> pairwise_ne (map fst kvs))"
| "supported T (PySet c xs) = (c = Exact \<and> (\<forall>x \<in> set xs. supported T x) \<and> pairwise_ne xs)"
| "supported T (PyFrozenSet c xs) =
     (c = Exact \<and> (\<forall>x \<in> set xs. supported T x) \<and> pairwise_ne xs)"
| "supported T (PyBool b) = True"
| "supported T PyNone = True"
| "supported T (PyOther name) = False"

text \<open>A value without a boolean in it.\<close>

fun bool_free :: "pyobj \<Rightarrow> bool" where
  "bool_free (PyBool b) = False"
| "bool_free (PyList c xs) = (\<forall>x \<in> set xs. bool_free x)"
| "bool_free (PyTuple c xs) = (\<forall>x \<in> set xs. bool_free x)"
| "bool_free (PyDict c kvs) = (\<forall>(k, v) \<in> set kvs. bool_free k \<and> bool_free v)"
| "bool_free (PySet c xs) = (\<forall>x \<in> set xs. bool_free x)"
| "bool_free (PyFrozenSet c xs) = (\<forall>x \<in> set xs. bool_free x)"
| "bool_free obj = True"

text \<open>
  All sizes inside a value fit into the \<^verbatim>\<open>unsigned long long\<close> variables of the
  codec: no call of \<^verbatim>\<open>serialize\<close> on the value or on a part of it wraps around, and
  every element count is below \<open>2 ^ 64\<close>.
\<close>

fun sizes_fit :: "codec \<Rightarrow> pyobj \<Rightarrow> bool" where
  "sizes_fit T (PyList c xs) =
     (block_fits (serialize T (PyList c xs) (None, 0)) \<and> length xs < 2 ^ 64
      \<and> (\<forall>x \<in> set xs. sizes_fit T x))"
| "sizes_fit T (PyTuple c xs) =
     (block_fits (serialize T (PyTuple c xs) (None, 0)) \<and> length xs < 2 ^ 64
      \<and> (\<forall>x \<in> set xs. sizes_fit T x))"
| "sizes_fit T (PyDict c kvs) =
     (block_fits (serialize T (PyDict c kvs) (None, 0)) \<and> length kvs < 2 ^ 64
      \<and> (\<forall>(k, v) \<in> set kvs. sizes_fit T k \<and> sizes_fit T v))"
| "sizes_fit T (PySet c xs) =
     (block_fits (serialize T (PySet c xs) (None, 0)) \<and> length xs < 2 ^ 64
      \<and> (\<forall>x \<in> set xs. sizes_fit T x))"
| "sizes_fit T (PyFrozenSet c xs) =
     (block_fits (serialize T (PyFrozenSet c xs) (None, 0)) \<and> length xs < 2 ^ 64
      \<and> (\<forall>x \<in> set xs. sizes_fit T x))"
| "sizes_fit T obj = block_fits (serialize T obj (None, 0))"

text \<open>The return value of \<^verbatim>\<open>serialize\<close>: 1 on failure, 0 on success.\<close>

definition return_value :: "error + unit \<Rightarrow> int" where
  "return_value r = (case r of Inl e \<Rightarrow> 1 | Inr u \<Rightarrow> 0)"

section \<open>Properties\<close>

subsection \<open>The tag table\<close>

lemma tags_okD:
  assumes "tags_ok T"
  shows "distinct (case_labels T)" "distinct (rev (case_labels T))"
    "0 \<notin> set (case_labels T)"
  using assms by (auto simp add: tags_ok_def)

lemmas tag_facts = tags_okD [unfolded case_labels_def, simplified]

lemma example_tags_ok: "tags_ok example_codec"
  by (simp add: tags_ok_def case_labels_def example_codec_def)

subsection \<open>Type detection\<close>

lemma ndigits_pos: "0 < n \<Longrightarrow> 0 < ndigits n"
  by (subst ndigits.simps) simp

lemma ndigits_0: "ndigits 0 = 0"
  by (subst ndigits.simps) simp

lemma ob_size_neg: "(ob_size (PyLong c v) < 0) = (v < 0)"
proof (cases "v < 0")
  case True
  then have "0 < ndigits (nat \<bar>v\<bar>)" by (intro ndigits_pos) simp
  with True show ?thesis by (simp add: mult_less_0_iff)
next
  case False
  then show ?thesis by (simp add: mult_less_0_iff sgn_if)
qed

text \<open>
  Claim C9. The integer zero is classified as non-negative: \<^verbatim>\<open>getType\<close> returns
  \<^verbatim>\<open>INT_TYPE\<close> for the int 0 and \<^verbatim>\<open>LONG_TYPE\<close> for the long 0, whose machine value
  and whose \<^verbatim>\<open>ob_size\<close> are 0. For every int and long the negative tag is chosen
  exactly when the value is below zero.
\<close>

theorem zero_is_nonnegative:
  "getType T (PyInt Exact 0) = INT_TYPE T \<and>
   getType T (PyLong Exact 0) = LONG_TYPE T \<and>
   PyLong_AsLongLong (PyInt Exact 0) = 0 \<and>
   ob_size (PyLong Exact 0) = 0 \<and>
   getType T (PyInt Exact v) = (if v < 0 then NEG_INT_TYPE T else INT_TYPE T) \<and>
   getType T (PyLong Exact v) = (if v < 0 then NEG_LONG_TYPE T else LONG_TYPE T)"
  using ob_size_neg [of Exact v] by (simp add: getType_def)

theorem zero_is_nonnegative_witness:
  "getType example_codec (PyInt Exact 0) = 1 \<and> getType example_codec (PyLong Exact 0) = 3 \<and>
   getType example_codec (PyInt Exact (- 1)) = 2 \<and> getType example_codec (PyLong Exact (- 1)) = 4"
  using zero_is_nonnegative [of example_codec "- 1"] by (simp add: example_codec_def)

text \<open>
  Claim C2. For a boolean, \<^verbatim>\<open>getType\<close> should return one of the two boolean tags and
  \<^verbatim>\<open>serialize\<close> should succeed. The chain of tests in \<^verbatim>\<open>getType\<close> has no test for
  \<^verbatim>\<open>bool\<close>, and the exact test for \<^verbatim>\<open>int\<close> does not accept the subclass \<^verbatim>\<open>bool\<close>:
  for both booleans \<^verbatim>\<open>getType\<close> returns 0 and \<^verbatim>\<open>serialize\<close> fails, although its
  \<^verbatim>\<open>switch\<close> has the cases \<^verbatim>\<open>BOOL_TRUE_TYPE\<close> and \<^verbatim>\<open>BOOL_FALSE_TYPE\<close>.
\<close>

theorem bool_not_detected:
  "getType T (PyBool b) = 0 \<and>
   serialize T (PyBool b) outp = (Inl TypeMismatch, outp)"
  by (simp add: getType_def serialize.simps)

subsection \<open>Failure of \<^verbatim>\<open>serialize\<close>\<close>

lemma serialize_unknown:
  "getType T obj = 0 \<Longrightarrow> serialize T obj outp = (Inl TypeMismatch, outp)"
  by (simp add: serialize.simps)

lemma serialize_shape_all:
  "getType T obj \<noteq> 0 \<Longrightarrow>
   \<exists>r. \<forall>outp. serialize T obj outp =
     (case r of
        Inl e \<Rightarrow> (Inl e, outp)
      | Inr body \<Rightarrow>
          (Inr (), (Some (constructHeaders (of_nat (length body)) (getType T obj) @ body @ [0]),
             of_nat (length (constructHeaders (of_nat (length body)) (getType T obj)))
               + of_nat (length body))))"
  apply (subst serialize.simps)
  apply (simp only: Let_def if_False)
  apply (rule exI)
  apply (rule allI)
  apply (rule refl)
  done

lemma serialize_failure_keeps_out:
  "fst (serialize T obj outp) = Inl e \<Longrightarrow> snd (serialize T obj outp) = outp"
proof (cases "getType T obj = 0")
  case True
  then show ?thesis by (simp add: serialize.simps)
next
  case False
  from serialize_shape_all [OF False] obtain r where
    r: "\<And>outp. serialize T obj outp =
     (case r of
        Inl e \<Rightarrow> (Inl e, outp)
      | Inr body \<Rightarrow>
          (Inr (), (Some (constructHeaders (of_nat (length body)) (getType T obj) @ body @ [0]),
             of_nat (length (constructHeaders (of_nat (length body)) (getType T obj)))
               + of_nat (length body))))" by blast
  assume "fst (serialize T obj outp) = Inl e"
  then show ?thesis unfolding r by (cases r) simp_all
qed

text \<open>
  Claim C5. A host value without a corresponding kind of value makes \<^verbatim>\<open>serialize\<close>
  fail with a type mismatch before anything is written: for an object of another type,
  and for every object for which \<^verbatim>\<open>getType\<close> finds no tag, the call returns nonzero
  with the type error and leaves \<^verbatim>\<open>*out\<close> and \<^verbatim>\<open>*outSize\<close> as they were; and
  whenever the call returns nonzero, also from inside a container, both are unmodified.
\<close>

theorem unsupported_rejected:
  "serialize T (PyOther name) outp = (Inl TypeMismatch, outp) \<and>
   (getType T obj = 0 \<longrightarrow> serialize T obj outp = (Inl TypeMismatch, outp)) \<and>
   (return_value (fst (serialize T obj outp)) \<noteq> 0 \<longrightarrow> snd (serialize T obj outp) = outp)"
proof (intro conjI impI)
  show "serialize T (PyOther name) outp = (Inl TypeMismatch, outp)"
    by (simp add: getType_def serialize.simps)
  show "serialize T obj outp = (Inl TypeMismatch, outp)" if "getType T obj = 0"
    using that by (rule serialize_unknown)
  show "snd (serialize T obj outp) = outp" if "return_value (fst (serialize T obj outp)) \<noteq> 0"
  proof -
    from that obtain e where "fst (serialize T obj outp) = Inl e"
      by (cases "fst (serialize T obj outp)") (auto simp: return_value_def)
    then show ?thesis by (rule serialize_failure_keeps_out)
  qed
qed

theorem unsupported_rejected_witness:
  "getType example_codec (PyOther ''object'') = 0 \<and>
   serialize example_codec (PyOther ''object'') (None, 0) = (Inl TypeMismatch, (None, 0)) \<and>
   return_value (fst (serialize example_codec (PyOther ''object'') (None, 0))) \<noteq> 0 \<and>
   snd (serialize example_codec (PyOther ''object'') (None, 0)) = (None, 0)"
  using unsupported_rejected [of example_codec "''object''" "(None, 0)" "PyOther ''object''"]
  by (simp add: getType_def return_value_def)

subsection \<open>The VarSize prefix\<close>

lemma be_value_append: "be_value (bs @ [b]) = be_value bs * 256 + unat b"
  by (simp add: be_value_def)

lemma be_value_be_bytes: "be_value (be_bytes n) = n"
proof (induction n rule: be_bytes.induct)
  case (1 n)
  show ?case
  proof (cases "n = 0")
    case True
    then show ?thesis by (simp add: be_bytes.simps be_value_def)
  next
    case False
    have "unat (of_nat (n mod 256) :: byte) = n mod 256"
      by (simp add: unat_of_nat)
    with False 1 show ?thesis
      by (subst be_bytes.simps) (simp add: be_value_append)
  qed
qed

lemma length_be_bytes: "n < 256 ^ k \<Longrightarrow> length (be_bytes n) \<le> k"
proof (induction n arbitrary: k rule: be_bytes.induct)
  case (1 n)
  show ?case
  proof (cases "n = 0")
    case True
    then show ?thesis by (simp add: be_bytes.simps)
  next
    case False
    with 1(2) obtain j where k: "k = Suc j" by (cases k) auto
    with 1(2) have "n div 256 < 256 ^ j"
      by (simp add: less_mult_imp_div_less mult.commute)
    with 1(1)[OF False] have "length (be_bytes (n div 256)) \<le> j" by blast
    with False k show ?thesis by (subst be_bytes.simps) simp
  qed
qed

lemma length_be_bytes_word: "length (be_bytes (unat (n :: 64 word))) \<le> 8"
proof -
  have "unat n < 2 ^ 64" using unsigned_less [of n] by simp
  then have "unat n < 256 ^ 8" by simp
  then show ?thesis by (rule length_be_bytes)
qed

lemma be_value_be_fixed: "n < 256 ^ k \<Longrightarrow> be_value (be_fixed k n) = n"
proof (induction k arbitrary: n)
  case 0
  then show ?case by (simp add: be_value_def)
next
  case (Suc k)
  then have "n div 256 < 256 ^ k"
    by (simp add: less_mult_imp_div_less mult.commute)
  with Suc.IH have "be_value (be_fixed k (n div 256)) = n div 256" by blast
  moreover have "unat (of_nat (n mod 256) :: byte) = n mod 256"
    by (simp add: unat_of_nat)
  ultimately show ?case by (simp add: be_value_append)
qed

lemma length_be_fixed: "length (be_fixed k n) = k"
  by (induction k arbitrary: n) auto

lemma short_byte_low:
  assumes "(b::byte) < 128" shows "(0x80 OR b) AND 0x7F = b"
proof -
  from assms have "b < 2 ^ 7" by simp
  then have m: "b AND mask 7 = b" by (rule less_mask_eq)
  have "(0x80 OR b) AND mask 7 = (0x80 AND mask 7) OR (b AND mask 7)"
    by (simp add: bit.conj_disj_distrib2)
  also have "\<dots> = b" using m by (simp add: mask_eq_exp_minus_1)
  finally show ?thesis by (simp add: mask_eq_exp_minus_1)
qed

lemma short_byte_high: "((0x80 OR b) AND 0x80 :: byte) = 0x80"
  by (rule bit_eqI) (auto simp add: bit_simps)

lemma count_byte_low:
  assumes "k \<le> 8" shows "(of_nat k :: byte) AND 0x7F = of_nat k"
proof -
  from assms have "(of_nat k :: byte) < 2 ^ 7"
    by (simp add: word_less_nat_alt unat_of_nat)
  then have "(of_nat k :: byte) AND mask 7 = of_nat k" by (rule less_mask_eq)
  then show ?thesis by (simp add: mask_eq_exp_minus_1)
qed

lemma count_byte_high:
  assumes "k \<le> 8" shows "(of_nat k :: byte) AND 0x80 = 0"
proof -
  have "(of_nat k :: byte) AND 0x80 = ((of_nat k :: byte) AND mask 7) AND 0x80"
    using count_byte_low [OF assms] by (simp add: mask_eq_exp_minus_1)
  also have "\<dots> = of_nat k AND (mask 7 AND 0x80)" by (simp add: ac_simps)
  also have "\<dots> = 0" by (simp add: mask_eq_exp_minus_1)
  finally show ?thesis .
qed

lemma encodeSize_short:
  "n \<le> 127 \<Longrightarrow> encodeSize n = [0x80 OR ucast n]"
  by (simp add: encodeSize_def)

lemma small_size_byte:
  assumes "(n :: 64 word) \<le> 127"
  shows "(ucast n :: byte) < 128" and "ucast (ucast n :: byte) = n"
    and "unat (ucast n :: byte) = unat n"
proof -
  from assms have u: "unat n \<le> 127" by (simp add: word_le_nat_alt)
  then show u2: "unat (ucast n :: byte) = unat n"
    by (simp add: unsigned_ucast_eq take_bit_eq_mod)
  with u show "(ucast n :: byte) < 128"
    by (simp add: word_less_nat_alt)
  from u show "ucast (ucast n :: byte) = n"
    by (simp add: word_unat_eq_iff unsigned_ucast_eq take_bit_eq_mod unat_mod)
qed

lemma decodeSize_encodeSize: "decodeSize (encodeSize n @ rest) = Inr (n, rest)"
proof (cases "n \<le> 127")
  case True
  note sb = small_size_byte [OF True]
  show ?thesis
    by (simp add: encodeSize_short [OF True] decodeSize_def short_byte_high
          short_byte_low [OF sb(1)] sb(2))
next
  case False
  define bs where "bs = be_bytes (unat n)"
  have len: "length bs \<le> 8" unfolding bs_def by (rule length_be_bytes_word)
  have val: "be_value bs = unat n" unfolding bs_def by (rule be_value_be_bytes)
  have u: "unat (of_nat (length bs) :: byte) = length bs" using len by (simp add: unat_of_nat)
  have enc: "encodeSize n = of_nat (length bs) # bs"
    using False by (simp add: encodeSize_def Let_def bs_def [symmetric] count_byte_low [OF len])
  show ?thesis
    by (simp add: enc decodeSize_def count_byte_high [OF len] count_byte_low [OF len] u val)
qed

lemma encodeSize_long:
  assumes "128 \<le> (n :: 64 word)"
  shows "hd (encodeSize n) AND 0x80 = 0"
    and "unat (hd (encodeSize n) AND 0x7F) = length (tl (encodeSize n))"
    and "tl (encodeSize n) = be_bytes (unat n)"
    and "be_value (tl (encodeSize n)) = unat n"
    and "2 \<le> length (encodeSize n)"
proof -
  define bs where "bs = be_bytes (unat n)"
  have len: "length bs \<le> 8" unfolding bs_def by (rule length_be_bytes_word)
  from assms have "\<not> n \<le> 127" by (simp add: word_le_nat_alt)
  then have enc: "encodeSize n = of_nat (length bs) # bs"
    by (simp add: encodeSize_def Let_def bs_def [symmetric] count_byte_low [OF len])
  show "hd (encodeSize n) AND 0x80 = 0" by (simp add: enc count_byte_high [OF len])
  show "unat (hd (encodeSize n) AND 0x7F) = length (tl (encodeSize n))"
    using len by (simp add: enc count_byte_low [OF len] unat_of_nat)
  show "tl (encodeSize n) = be_bytes (unat n)" by (simp add: enc bs_def)
  show "be_value (tl (encodeSize n)) = unat n" by (simp add: enc bs_def be_value_be_bytes)
  from assms have "0 < unat n" by (simp add: word_le_nat_alt)
  then have "bs \<noteq> []" unfolding bs_def by (subst be_bytes.simps) simp
  then show "2 \<le> length (encodeSize n)" by (cases bs) (simp_all add: enc)
qed

text \<open>
  Claim C6. Decoding the VarSize encoding of a size \<open>n\<close> yields \<open>n\<close> and leaves what
  follows it unread. For \<open>n \<le> 127\<close> the encoding is the single byte \<^verbatim>\<open>0x80 | n\<close>,
  with the high bit set and \<open>n\<close> in the low 7 bits. For \<open>n \<ge> 128\<close> the first byte has
  the high bit clear and its low 7 bits count the bytes that follow, which are the
  big-endian magnitude of \<open>n\<close>. A size is an \<^verbatim>\<open>unsigned long long\<close>.
\<close>

theorem varsize_roundtrip:
  "decodeSize (encodeSize n @ rest) = Inr (n, rest) \<and>
   (n \<le> 127 \<longrightarrow>
      encodeSize n = [0x80 OR ucast n] \<and>
      hd (encodeSize n) AND 0x80 = 0x80 \<and>
      unat (hd (encodeSize n) AND 0x7F) = unat n) \<and>
   (128 \<le> n \<longrightarrow>
      hd (encodeSize n) AND 0x80 = 0 \<and>
      unat (hd (encodeSize n) AND 0x7F) = length (tl (encodeSize n)) \<and>
      tl (encodeSize n) = be_bytes (unat n) \<and>
      be_value (tl (encodeSize n)) = unat n)"
proof (intro conjI impI)
  show "decodeSize (encodeSize n @ rest) = Inr (n, rest)" by (rule decodeSize_encodeSize)
next
  assume s: "n \<le> 127"
  note sb = small_size_byte [OF s]
  show "encodeSize n = [0x80 OR ucast n]" by (rule encodeSize_short [OF s])
  show "hd (encodeSize n) AND 0x80 = 0x80"
    by (simp add: encodeSize_short [OF s] short_byte_high)
  show "unat (hd (encodeSize n) AND 0x7F) = unat n"
    by (simp add: encodeSize_short [OF s] short_byte_low [OF sb(1)] sb(3))
next
  assume l: "128 \<le> n"
  show "hd (encodeSize n) AND 0x80 = 0" by (rule encodeSize_long(1) [OF l])
  show "unat (hd (encodeSize n) AND 0x7F) = length (tl (encodeSize n))"
    by (rule encodeSize_long(2) [OF l])
  show "tl (encodeSize n) = be_bytes (unat n)" by (rule encodeSize_long(3) [OF l])
  show "be_value (tl (encodeSize n)) = unat n" by (rule encodeSize_long(4) [OF l])
qed

theorem varsize_roundtrip_witness:
  "decodeSize (encodeSize 127 @ [1, 2]) = Inr (127, [1, 2]) \<and> encodeSize 127 = [0xFF] \<and>
   decodeSize (encodeSize 128 @ [1, 2]) = Inr (128, [1, 2]) \<and> encodeSize 128 = [1, 0x80] \<and>
   decodeSize (encodeSize 4294967296) = Inr (4294967296, [])"
  using varsize_roundtrip [of 127 "[1, 2]"] varsize_roundtrip [of 128 "[1, 2]"]
    varsize_roundtrip [of 4294967296 "[]"]
  by (simp add: encodeSize_def be_bytes.simps)

subsection \<open>Unknown tags\<close>

lemma parseHeaders_type:
  "parseHeaders (type # rest) = Inr (t, sz, buf1) \<Longrightarrow> t = type"
  by (auto simp: parseHeaders_def split: sum.splits if_splits)

text \<open>
  Claim C4, as stated: a buffer whose first byte is no tag of the codec makes
  \<^verbatim>\<open>deserialize\<close> fail with the unrecognized-tag error. \<^verbatim>\<open>deserialize\<close> parses the
  whole header before it looks at the tag, so a buffer that ends inside the header
  fails with the header's error instead: the one-byte buffer \<open>[255]\<close> is a buffer
  underrun.
\<close>

theorem unknown_tag_counterexample:
  "255 \<notin> set (case_labels example_codec) \<and>
   deserialize example_codec [255] = Inl BufferUnderrun \<and>
   deserialize example_codec [255] \<noteq> Inl UnrecognizedTag"
  by (simp add: case_labels_def example_codec_def deserialize.simps parseHeaders_def
        decodeSize_def)

text \<open>
  Claim C4, amended. A buffer whose first byte is no tag of the codec never yields a
  value: \<^verbatim>\<open>deserialize\<close> fails with the error of \<^verbatim>\<open>parseHeaders\<close> when the header
  does not parse, and with the unrecognized-tag error when it does. No unknown tag is
  mapped to a kind.
\<close>

theorem unknown_tag_fails:
  assumes "type \<notin> set (case_labels T)"
  shows "deserialize T (type # rest) =
           (case parseHeaders (type # rest) of
              Inl e \<Rightarrow> Inl e
            | Inr r \<Rightarrow> Inl UnrecognizedTag)"
proof (cases "parseHeaders (type # rest)")
  case (Inl e)
  then show ?thesis by (simp add: deserialize.simps)
next
  case (Inr r)
  then obtain t sz buf1 where ph: "parseHeaders (type # rest) = Inr (t, sz, buf1)"
    by (cases r) auto
  from parseHeaders_type [OF ph] have t: "t = type" .
  note un = assms [unfolded case_labels_def, simplified]
  show ?thesis
    by (simp add: deserialize.simps ph t un)
qed

theorem unknown_tag_fails_witness:
  "255 \<notin> set (case_labels example_codec) \<and>
   deserialize example_codec [255, 0x80] = Inl UnrecognizedTag \<and>
   deserialize example_codec [255, 0x05, 1] = Inl BufferUnderrun"
  using unknown_tag_fails [of 255 example_codec "[0x80]"]
    unknown_tag_fails [of 255 example_codec "[0x05, 1]"]
  by (simp add: case_labels_def example_codec_def parseHeaders_def decodeSize_def)

subsection \<open>Dispatch on the tag and framing\<close>

lemma serialize_dispatch:
  assumes ok: "tags_ok T"
  shows "getType T obj = INT_TYPE T \<Longrightarrow>
           serialize T obj outp = finish outp (INT_TYPE T) (serializeInt obj (INT_TYPE T))"
    and "getType T obj = NEG_INT_TYPE T \<Longrightarrow>
           serialize T obj outp = finish outp (NEG_INT_TYPE T) (serializeInt obj (NEG_INT_TYPE T))"
    and "getType T obj = LONG_TYPE T \<Longrightarrow>
           serialize T obj outp = finish outp (LONG_TYPE T) (serializeLong obj (LONG_TYPE T))"
    and "getType T obj = NEG_LONG_TYPE T \<Longrightarrow>
           serialize T obj outp = finish outp (NEG_LONG_TYPE T) (serializeLong obj (NEG_LONG_TYPE T))"
    and "getType T obj = FLOAT_TYPE T \<Longrightarrow>
           serialize T obj outp = finish outp (FLOAT_TYPE T) (serializeFloat obj)"
    and "getType T obj = BYTES_TYPE T \<Longrightarrow>
           serialize T obj outp = finish outp (BYTES_TYPE T) (serializeBytes obj)"
    and "getType T obj = UNICODE_TYPE T \<Longrightarrow>
           serialize T obj outp = finish outp (UNICODE_TYPE T) (serializeUnicode obj)"
    and "getType T obj = LIST_TYPE T \<Longrightarrow>
           serialize T obj outp = finish outp (LIST_TYPE T) (serializeList T obj)"
    and "getType T obj = TUPLE_TYPE T \<Longrightarrow>
           serialize T obj outp = finish outp (TUPLE_TYPE T) (serializeTuple T obj)"
    and "getType T obj = DICT_TYPE T \<Longrightarrow>
           serialize T obj outp = finish outp (DICT_TYPE T) (serializeDict T obj)"
    and "getType T obj = SET_TYPE T \<Longrightarrow>
           serialize T obj outp = finish outp (SET_TYPE T) (serializeSet T obj)"
    and "getType T obj = FROZEN_SET_TYPE T \<Longrightarrow>
           serialize T obj outp = finish outp (FROZEN_SET_TYPE T) (serializeSet T obj)"
    and "getType T obj = NONE_TYPE T \<Longrightarrow>
           serialize T obj outp = finish outp (NONE_TYPE T) serializeNone"
  by (simp_all add: serialize.simps [of T obj outp] tag_facts [OF ok] Let_def finish_def
        cong: sum.case_cong)

lemma deserialize_dispatch:
  assumes ok: "tags_ok T"
  shows "parseHeaders buf = Inr (INT_TYPE T, sz, buf1) \<Longrightarrow>
           deserialize T buf = deserializeInt T buf1 (INT_TYPE T) sz"
    and "parseHeaders buf = Inr (NEG_INT_TYPE T, sz, buf1) \<Longrightarrow>
           deserialize T buf = deserializeInt T buf1 (NEG_INT_TYPE T) sz"
    and "parseHeaders buf = Inr (LONG_TYPE T, sz, buf1) \<Longrightarrow>
           deserialize T buf = deserializeLong T buf1 (LONG_TYPE T) sz"
    and "parseHeaders buf = Inr (NEG_LONG_TYPE T, sz, buf1) \<Longrightarrow>
           deserialize T buf = deserializeLong T buf1 (NEG_LONG_TYPE T) sz"
    and "parseHeaders buf = Inr (FLOAT_TYPE T, sz, buf1) \<Longrightarrow>
           deserialize T buf = deserializeFloat buf1"
    and "parseHeaders buf = Inr (UNICODE_TYPE T, sz, buf1) \<Longrightarrow>
           deserialize T buf = deserializeUnicode T buf1 sz"
    and "parseHeaders buf = Inr (BYTES_TYPE T, sz, buf1) \<Longrightarrow>
           deserialize T buf = deserializeBytes buf1 sz"
    and "parseHeaders buf = Inr (LIST_TYPE T, sz, buf1) \<Longrightarrow>
           deserialize T buf = deserializeList T buf1"
    and "parseHeaders buf = Inr (TUPLE_TYPE T, sz, buf1) \<Longrightarrow>
           deserialize T buf = deserializeTuple T buf1"
    and "parseHeaders buf = Inr (DICT_TYPE T, sz, buf1) \<Longrightarrow>
           deserialize T buf = deserializeDict T buf1"
    and "parseHeaders buf = Inr (SET_TYPE T, sz, buf1) \<Longrightarrow>
           deserialize T buf = deserializeSet T buf1 (SET_TYPE T)"
    and "parseHeaders buf = Inr (FROZEN_SET_TYPE T, sz, buf1) \<Longrightarrow>
           deserialize T buf = deserializeSet T buf1 (FROZEN_SET_TYPE T)"
    and "parseHeaders buf = Inr (NONE_TYPE T, sz, buf1) \<Longrightarrow>
           deserialize T buf = Inr (deserializeNone, buf1)"
  by (simp_all add: deserialize.simps [of T buf] tag_facts [OF ok])

lemma unat_of_nat64: "n < 2 ^ 64 \<Longrightarrow> unat (of_nat n :: 64 word) = n"
  by (simp add: unat_of_nat)

lemma block_fits_finish:
  assumes "block_fits (finish outp type (Inr body))"
  shows "length (constructHeaders (of_nat (length body)) type) + length body < 2 ^ 64"
proof -
  let ?h = "constructHeaders (of_nat (length body)) type"
  let ?N = "length ?h + length body"
  from assms have "?N + 1 = unat (of_nat (length ?h) + of_nat (length body) :: 64 word) + 1"
    by (simp add: block_fits_def finish_def)
  then have "?N = unat (of_nat ?N :: 64 word)" by simp
  also have "\<dots> < 2 ^ 64" using unsigned_less [of "of_nat ?N :: 64 word"] by simp
  finally show ?thesis .
qed

lemma produced_finish:
  assumes "length (constructHeaders (of_nat (length body)) type) + length body < 2 ^ 64"
  shows "produced (snd (finish outp type (Inr body))) =
           constructHeaders (of_nat (length body)) type @ body"
proof -
  let ?h = "constructHeaders (of_nat (length body)) type"
  have "unat (of_nat (length ?h) + of_nat (length body) :: 64 word) = length ?h + length body"
    using unat_of_nat64 [OF assms] by simp
  then show ?thesis by (simp add: produced_def finish_def)
qed

lemma parseHeaders_constructHeaders:
  assumes "length body < 2 ^ 64"
  shows "parseHeaders (constructHeaders (of_nat (length body)) type @ body @ rest) =
           Inr (type, of_nat (length body), body @ rest)"
  by (simp add: parseHeaders_def constructHeaders_def decodeSize_encodeSize
        unat_of_nat64 [OF assms])

subsection \<open>Round trip\<close>

lemma sizes_fit_block: "sizes_fit T obj \<Longrightarrow> block_fits (serialize T obj (None, 0))"
  by (cases obj) simp_all

lemma foldl_set_add:
  "pairwise_ne xs \<Longrightarrow> \<forall>a \<in> set acc. \<forall>x \<in> set xs. \<not> py_eq a x \<Longrightarrow>
   foldl set_add acc xs = acc @ xs"
proof (induction xs arbitrary: acc)
  case Nil
  then show ?case by simp
next
  case (Cons x xs)
  from Cons.prems have sa: "set_add acc x = acc @ [x]" by (simp add: set_add_def)
  from Cons.prems have "foldl set_add (acc @ [x]) xs = (acc @ [x]) @ xs"
    by (intro Cons.IH) auto
  with sa show ?case by simp
qed

lemma foldl_dict_set:
  "pairwise_ne (map fst kvs) \<Longrightarrow> \<forall>a \<in> set acc. \<forall>x \<in> set kvs. \<not> py_eq (fst a) (fst x) \<Longrightarrow>
   foldl dict_set acc kvs = acc @ kvs"
proof (induction kvs arbitrary: acc)
  case Nil
  then show ?case by simp
next
  case (Cons kv kvs)
  from Cons.prems have sa: "dict_set acc kv = acc @ [kv]"
    by (auto simp add: dict_set_def)
  from Cons.prems have "foldl dict_set (acc @ [kv]) kvs = (acc @ [kv]) @ kvs"
    by (intro Cons.IH) auto
  with sa show ?case by simp
qed

lemma readBytes_append: "readBytes (length bs) (bs @ rest) = Inr (bs, rest)"
  by (simp add: readBytes_def)

lemma be_value_magnitude: "be_value (int_magnitude v) = nat \<bar>v\<bar>"
proof (cases "v = 0")
  case True
  then show ?thesis by (simp add: int_magnitude_def be_value_def)
next
  case False
  then show ?thesis by (simp add: int_magnitude_def be_value_be_bytes)
qed

lemma deserializeInt_magnitude:
  assumes "length (int_magnitude v) < 2 ^ 64"
  shows "deserializeInt T (int_magnitude v @ rest) type (of_nat (length (int_magnitude v))) =
           Inr (PyInt Exact (if type = NEG_INT_TYPE T then - \<bar>v\<bar> else \<bar>v\<bar>), rest)"
  by (simp add: deserializeInt_def unat_of_nat64 [OF assms] readBytes_append be_value_magnitude)

lemma deserializeLong_magnitude:
  assumes "length (int_magnitude v) < 2 ^ 64"
  shows "deserializeLong T (int_magnitude v @ rest) type (of_nat (length (int_magnitude v))) =
           Inr (PyLong Exact (if type = NEG_LONG_TYPE T then - \<bar>v\<bar> else \<bar>v\<bar>), rest)"
  by (simp add: deserializeLong_def unat_of_nat64 [OF assms] readBytes_append be_value_magnitude)

lemma deserializeFloat_fixed:
  "deserializeFloat (be_fixed 8 (unat (w :: 64 word)) @ rest) = Inr (PyFloat Exact w, rest)"
proof -
  have "unat w < 2 ^ 64" using unsigned_less [of w] by simp
  then have "unat w < 256 ^ 8" by simp
  then have v: "be_value (be_fixed 8 (unat w)) = unat w" by (rule be_value_be_fixed)
  have "readBytes 8 (be_fixed 8 (unat w) @ rest) = Inr (be_fixed 8 (unat w), rest)"
    using readBytes_append [of "be_fixed 8 (unat w)" rest] by (simp only: length_be_fixed)
  then show ?thesis by (simp add: deserializeFloat_def v)
qed

lemma deserializeBytes_raw:
  assumes "length bs < 2 ^ 64"
  shows "deserializeBytes (bs @ rest) (of_nat (length bs)) = Inr (PyString Exact bs, rest)"
  by (simp add: deserializeBytes_def unat_of_nat64 [OF assms] readBytes_append)

lemma deserializeUnicode_raw:
  assumes "length bs < 2 ^ 64" and "text_valid T bs"
  shows "deserializeUnicode T (bs @ rest) (of_nat (length bs)) = Inr (PyUnicode Exact bs, rest)"
  using assms(2) by (simp add: deserializeUnicode_def unat_of_nat64 [OF assms(1)] readBytes_append)

lemma envelope_roundtrip:
  assumes ser: "serialize T obj outp = (Inr (), p)"
    and disp: "\<And>q. serialize T obj q = finish q t r"
    and fit: "block_fits (serialize T obj (None, 0))"
  obtains body where "r = Inr body" and "length body < 2 ^ 64"
    and "\<And>rest. parseHeaders (produced p @ rest) = Inr (t, of_nat (length body), body @ rest)"
proof -
  from ser disp [of outp] obtain body where r: "r = Inr body"
    by (cases r) (auto simp: finish_def)
  from fit disp [of "(None, 0)"] r have "block_fits (finish (None, 0) t (Inr body))" by simp
  then have N: "length (constructHeaders (of_nat (length body)) t) + length body < 2 ^ 64"
    by (rule block_fits_finish)
  then have len: "length body < 2 ^ 64" by simp
  from ser disp [of outp] r have p: "p = snd (finish outp t (Inr body))" by simp
  have pr: "produced p = constructHeaders (of_nat (length body)) t @ body"
    unfolding p by (rule produced_finish [OF N])
  have "parseHeaders (produced p @ rest) = Inr (t, of_nat (length body), body @ rest)" for rest
    unfolding pr using parseHeaders_constructHeaders [OF len, of t rest] by simp
  with r len show ?thesis by (rule that)
qed

lemma roundtrip_scalar:
  assumes ok: "tags_ok T" and sb: "STRING_TYPE T = BYTES_TYPE T"
    and sup: "supported T obj" and fit: "block_fits (serialize T obj (None, 0))"
    and ser: "serialize T obj outp = (Inr (), p)"
    and scalar: "\<forall>c xs. obj \<noteq> PyList c xs \<and> obj \<noteq> PyTuple c xs \<and> obj \<noteq> PySet c xs
                  \<and> obj \<noteq> PyFrozenSet c xs" "\<forall>c kvs. obj \<noteq> PyDict c kvs"
  shows "deserialize T (produced p @ rest) = Inr (obj, rest)"
proof (cases obj)
  case (PyInt c v)
  with sup have obj: "obj = PyInt Exact v" by simp
  show ?thesis
  proof (cases "v < 0")
    case True
    then have g: "getType T obj = NEG_INT_TYPE T" by (simp add: obj getType_def)
    note d = serialize_dispatch(2) [OF ok g]
    from envelope_roundtrip [OF ser d fit] obtain body where
      r: "serializeInt obj (NEG_INT_TYPE T) = Inr body" and len: "length body < 2 ^ 64"
      and ph: "\<And>rest. parseHeaders (produced p @ rest) =
                 Inr (NEG_INT_TYPE T, of_nat (length body), body @ rest)" by blast
    from r have body: "body = int_magnitude v" by (simp add: obj serializeInt_def)
    show ?thesis
      using True deserializeInt_magnitude [OF len [unfolded body], where T = T and rest = rest and type = "NEG_INT_TYPE T"]
      by (simp add: deserialize_dispatch(2) [OF ok ph] body obj)
  next
    case False
    then have g: "getType T obj = INT_TYPE T" by (simp add: obj getType_def)
    note d = serialize_dispatch(1) [OF ok g]
    from envelope_roundtrip [OF ser d fit] obtain body where
      r: "serializeInt obj (INT_TYPE T) = Inr body" and len: "length body < 2 ^ 64"
      and ph: "\<And>rest. parseHeaders (produced p @ rest) =
                 Inr (INT_TYPE T, of_nat (length body), body @ rest)" by blast
    from r have body: "body = int_magnitude v" by (simp add: obj serializeInt_def)
    show ?thesis
      using False deserializeInt_magnitude [OF len [unfolded body], where T = T and rest = rest and type = "INT_TYPE T"]
      by (simp add: deserialize_dispatch(1) [OF ok ph] body obj tag_facts [OF ok])
  qed
next
  case (PyLong c v)
  with sup have obj: "obj = PyLong Exact v" by simp
  show ?thesis
  proof (cases "v < 0")
    case True
    then have g: "getType T obj = NEG_LONG_TYPE T" by (simp add: obj getType_def ob_size_neg del: ob_size.simps)
    note d = serialize_dispatch(4) [OF ok g]
    from envelope_roundtrip [OF ser d fit] obtain body where
      r: "serializeLong obj (NEG_LONG_TYPE T) = Inr body" and len: "length body < 2 ^ 64"
      and ph: "\<And>rest. parseHeaders (produced p @ rest) =
                 Inr (NEG_LONG_TYPE T, of_nat (length body), body @ rest)" by blast
    from r have body: "body = int_magnitude v" by (simp add: obj serializeLong_def)
    show ?thesis
      using True deserializeLong_magnitude [OF len [unfolded body], where T = T and rest = rest and type = "NEG_LONG_TYPE T"]
      by (simp add: deserialize_dispatch(4) [OF ok ph] body obj)
  next
    case False
    then have g: "getType T obj = LONG_TYPE T" by (simp add: obj getType_def ob_size_neg del: ob_size.simps)
    note d = serialize_dispatch(3) [OF ok g]
    from envelope_roundtrip [OF ser d fit] obtain body where
      r: "serializeLong obj (LONG_TYPE T) = Inr body" and len: "length body < 2 ^ 64"
      and ph: "\<And>rest. parseHeaders (produced p @ rest) =
                 Inr (LONG_TYPE T, of_nat (length body), body @ rest)" by blast
    from r have body: "body = int_magnitude v" by (simp add: obj serializeLong_def)
    show ?thesis
      using False deserializeLong_magnitude [OF len [unfolded body], where T = T and rest = rest and type = "LONG_TYPE T"]
      by (simp add: deserialize_dispatch(3) [OF ok ph] body obj tag_facts [OF ok])
  qed
next
  case (PyFloat c w)
  with sup have obj: "obj = PyFloat Exact w" by simp
  have g: "getType T obj = FLOAT_TYPE T" by (simp add: obj getType_def)
  note d = serialize_dispatch(5) [OF ok g]
  from envelope_roundtrip [OF ser d fit] obtain body where
    r: "serializeFloat obj = Inr body" and len: "length body < 2 ^ 64"
    and ph: "\<And>rest. parseHeaders (produced p @ rest) =
               Inr (FLOAT_TYPE T, of_nat (length body), body @ rest)" by blast
  from r have body: "body = be_fixed 8 (unat w)" by (simp add: obj serializeFloat_def)
  show ?thesis
    by (simp add: deserialize_dispatch(5) [OF ok ph] body obj deserializeFloat_fixed)
next
  case (PyString c bs)
  with sup have obj: "obj = PyString Exact bs" by simp
  have g: "getType T obj = BYTES_TYPE T" by (simp add: obj getType_def sb)
  note d = serialize_dispatch(6) [OF ok g]
  from envelope_roundtrip [OF ser d fit] obtain body where
    r: "serializeBytes obj = Inr body" and len: "length body < 2 ^ 64"
    and ph: "\<And>rest. parseHeaders (produced p @ rest) =
               Inr (BYTES_TYPE T, of_nat (length body), body @ rest)" by blast
  from r have body: "body = bs" by (simp add: obj serializeBytes_def)
  show ?thesis
    using deserializeBytes_raw [OF len [unfolded body], where rest = rest]
    by (simp add: deserialize_dispatch(7) [OF ok ph] body obj)
next
  case (PyUnicode c bs)
  with sup have obj: "obj = PyUnicode Exact bs" and tv: "text_valid T bs" by simp_all
  have g: "getType T obj = UNICODE_TYPE T" by (simp add: obj getType_def)
  note d = serialize_dispatch(7) [OF ok g]
  from envelope_roundtrip [OF ser d fit] obtain body where
    r: "serializeUnicode obj = Inr body" and len: "length body < 2 ^ 64"
    and ph: "\<And>rest. parseHeaders (produced p @ rest) =
               Inr (UNICODE_TYPE T, of_nat (length body), body @ rest)" by blast
  from r have body: "body = bs" by (simp add: obj serializeUnicode_def)
  show ?thesis
    using deserializeUnicode_raw [OF len [unfolded body] tv, where rest = rest]
    by (simp add: deserialize_dispatch(6) [OF ok ph] body obj)
next
  case (PyList c xs)
  with scalar show ?thesis by simp
next
  case (PyTuple c xs)
  with scalar show ?thesis by simp
next
  case (PyDict c kvs)
  with scalar show ?thesis by simp
next
  case (PySet c xs)
  with scalar show ?thesis by simp
next
  case (PyFrozenSet c xs)
  with scalar show ?thesis by simp
next
  case (PyBool b)
  then have "getType T obj = 0" by (simp add: getType_def)
  with ser show ?thesis by (simp add: serialize.simps)
next
  case PyNone
  have g: "getType T obj = NONE_TYPE T" by (simp add: PyNone getType_def)
  note d = serialize_dispatch(13) [OF ok g]
  from envelope_roundtrip [OF ser d fit] obtain body where
    r: "serializeNone = Inr body" and len: "length body < 2 ^ 64"
    and ph: "\<And>rest. parseHeaders (produced p @ rest) =
               Inr (NONE_TYPE T, of_nat (length body), body @ rest)" by blast
  from r have body: "body = []" by (simp add: serializeNone_def)
  show ?thesis
    by (simp add: deserialize_dispatch(13) [OF ok ph] body PyNone deserializeNone_def)
next
  case (PyOther name)
  with sup show ?thesis by simp
qed

lemma roundtrip_all:
  shows "tags_ok T \<longrightarrow> STRING_TYPE T = BYTES_TYPE T \<longrightarrow>
         (\<forall>p rest. supported T object \<and> sizes_fit T object \<and>
            serialize T object outp = (Inr (), p) \<longrightarrow>
            deserialize T (produced p @ rest) = Inr (object, rest))"
    and "tags_ok T \<longrightarrow> STRING_TYPE T = BYTES_TYPE T \<longrightarrow>
         (\<forall>xs body rest. object = PyList Exact xs \<and>
            (\<forall>x \<in> set xs. supported T x \<and> sizes_fit T x) \<and> length xs < 2 ^ 64 \<and>
            serializeList T object = Inr body \<longrightarrow>
            deserializeList T (body @ rest) = Inr (object, rest))"
    and "tags_ok T \<longrightarrow> STRING_TYPE T = BYTES_TYPE T \<longrightarrow>
         (\<forall>xs body rest. object = PyTuple Exact xs \<and>
            (\<forall>x \<in> set xs. supported T x \<and> sizes_fit T x) \<and> length xs < 2 ^ 64 \<and>
            serializeTuple T object = Inr body \<longrightarrow>
            deserializeTuple T (body @ rest) = Inr (object, rest))"
    and "tags_ok T \<longrightarrow> STRING_TYPE T = BYTES_TYPE T \<longrightarrow>
         (\<forall>kvs body rest. object = PyDict Exact kvs \<and>
            (\<forall>kv \<in> set kvs. supported T (fst kv) \<and> sizes_fit T (fst kv) \<and>
                              supported T (snd kv) \<and> sizes_fit T (snd kv)) \<and>
            pairwise_ne (map fst kvs) \<and> length kvs < 2 ^ 64 \<and>
            serializeDict T object = Inr body \<longrightarrow>
            deserializeDict T (body @ rest) = Inr (object, rest))"
    and "tags_ok T \<longrightarrow> STRING_TYPE T = BYTES_TYPE T \<longrightarrow>
         (\<forall>xs body rest. (object = PySet Exact xs \<or> object = PyFrozenSet Exact xs) \<and>
            (\<forall>x \<in> set xs. supported T x \<and> sizes_fit T x) \<and>
            pairwise_ne xs \<and> length xs < 2 ^ 64 \<and>
            serializeSet T object = Inr body \<longrightarrow>
            deserializeSet T (body @ rest) (getType T object) = Inr (object, rest))"
    and "tags_ok T \<longrightarrow> STRING_TYPE T = BYTES_TYPE T \<longrightarrow>
         (\<forall>bs rest. (\<forall>x \<in> set items. supported T x \<and> sizes_fit T x) \<and>
            serializeItems T items = Inr bs \<longrightarrow>
            deserializeItems T (length items) (bs @ rest) = Inr (items, rest))"
    and "tags_ok T \<longrightarrow> STRING_TYPE T = BYTES_TYPE T \<longrightarrow>
         (\<forall>bs rest. (\<forall>kv \<in> set pairs. supported T (fst kv) \<and> sizes_fit T (fst kv) \<and>
                              supported T (snd kv) \<and> sizes_fit T (snd kv)) \<and>
            serializePairs T pairs = Inr bs \<longrightarrow>
            deserializePairs T (length pairs) (bs @ rest) = Inr (pairs, rest))"
proof (induct rule: serialize_serializeList_serializeTuple_serializeDict_serializeSet_serializeItems_serializePairs.induct)
  case (1 T object outp)
  show ?case
  proof (intro impI allI, elim conjE)
    fix p rest
    assume ok: "tags_ok T" and sb: "STRING_TYPE T = BYTES_TYPE T"
      and sup: "supported T object" and sf: "sizes_fit T object"
      and ser: "serialize T object outp = (Inr (), p)"
    note fit = sizes_fit_block [OF sf]
    note tg = tag_facts [OF ok]
    show "deserialize T (produced p @ rest) = Inr (object, rest)"
    proof (cases object)
      case (PyList c xs)
      with sup sf have obj: "object = PyList Exact xs"
        and el: "\<forall>x \<in> set xs. supported T x \<and> sizes_fit T x" and n: "length xs < 2 ^ 64"
        by simp_all
      have g: "getType T object = LIST_TYPE T" by (simp add: obj getType_def)
      note d = serialize_dispatch(8) [OF ok g]
      from envelope_roundtrip [OF ser d fit] obtain body where
        r: "serializeList T object = Inr body"
        and ph: "\<And>rest. parseHeaders (produced p @ rest) =
               Inr (LIST_TYPE T, of_nat (length body), body @ rest)" by blast
      from 1(1) [OF refl] g tg ok sb
      have "\<forall>xs body rest. object = PyList Exact xs \<and>
            (\<forall>x \<in> set xs. supported T x \<and> sizes_fit T x) \<and> length xs < 2 ^ 64 \<and>
            serializeList T object = Inr body \<longrightarrow>
            deserializeList T (body @ rest) = Inr (object, rest)" by simp
      with obj el n r have "deserializeList T (body @ rest) = Inr (object, rest)" by blast
      then show ?thesis by (simp add: deserialize_dispatch(8) [OF ok ph])
    next
      case (PyTuple c xs)
      with sup sf have obj: "object = PyTuple Exact xs"
        and el: "\<forall>x \<in> set xs. supported T x \<and> sizes_fit T x" and n: "length xs < 2 ^ 64"
        by simp_all
      have g: "getType T object = TUPLE_TYPE T" by (simp add: obj getType_def)
      note d = serialize_dispatch(9) [OF ok g]
      from envelope_roundtrip [OF ser d fit] obtain body where
        r: "serializeTuple T object = Inr body"
        and ph: "\<And>rest. parseHeaders (produced p @ rest) =
               Inr (TUPLE_TYPE T, of_nat (length body), body @ rest)" by blast
      from 1(2) [OF refl] g tg ok sb
      have "\<forall>xs body rest. object = PyTuple Exact xs \<and>
            (\<forall>x \<in> set xs. supported T x \<and> sizes_fit T x) \<and> length xs < 2 ^ 64 \<and>
            serializeTuple T object = Inr body \<longrightarrow>
            deserializeTuple T (body @ rest) = Inr (object, rest)" by simp
      with obj el n r have "deserializeTuple T (body @ rest) = Inr (object, rest)" by blast
      then show ?thesis by (simp add: deserialize_dispatch(9) [OF ok ph])
    next
      case (PyDict c kvs)
      with sup sf have obj: "object = PyDict Exact kvs"
        and el: "\<forall>kv \<in> set kvs. supported T (fst kv) \<and> sizes_fit T (fst kv) \<and>
                              supported T (snd kv) \<and> sizes_fit T (snd kv)"
        and pn: "pairwise_ne (map fst kvs)" and n: "length kvs < 2 ^ 64"
        by (auto simp: case_prod_beta)
      have g: "getType T object = DICT_TYPE T" by (simp add: obj getType_def)
      note d = serialize_dispatch(10) [OF ok g]
      from envelope_roundtrip [OF ser d fit] obtain body where
        r: "serializeDict T object = Inr body"
        and ph: "\<And>rest. parseHeaders (produced p @ rest) =
               Inr (DICT_TYPE T, of_nat (length body), body @ rest)" by blast
      from 1(3) [OF refl] g tg ok sb
      have "\<forall>kvs body rest. object = PyDict Exact kvs \<and>
            (\<forall>kv \<in> set kvs. supported T (fst kv) \<and> sizes_fit T (fst kv) \<and>
                              supported T (snd kv) \<and> sizes_fit T (snd kv)) \<and>
            pairwise_ne (map fst kvs) \<and> length kvs < 2 ^ 64 \<and>
            serializeDict T object = Inr body \<longrightarrow>
            deserializeDict T (body @ rest) = Inr (object, rest)" by simp
      with obj el pn n r have "deserializeDict T (body @ rest) = Inr (object, rest)" by blast
      then show ?thesis by (simp add: deserialize_dispatch(10) [OF ok ph])
    next
      case (PySet c xs)
      with sup sf have obj: "object = PySet Exact xs"
        and el: "\<forall>x \<in> set xs. supported T x \<and> sizes_fit T x"
        and pn: "pairwise_ne xs" and n: "length xs < 2 ^ 64"
        by simp_all
      have g: "getType T object = SET_TYPE T" by (simp add: obj getType_def)
      note d = serialize_dispatch(11) [OF ok g]
      from envelope_roundtrip [OF ser d fit] obtain body where
        r: "serializeSet T object = Inr body"
        and ph: "\<And>rest. parseHeaders (produced p @ rest) =
               Inr (SET_TYPE T, of_nat (length body), body @ rest)" by blast
      from 1(4) [OF refl] g tg ok sb
      have "\<forall>xs body rest. (object = PySet Exact xs \<or> object = PyFrozenSet Exact xs) \<and>
            (\<forall>x \<in> set xs. supported T x \<and> sizes_fit T x) \<and>
            pairwise_ne xs \<and> length xs < 2 ^ 64 \<and>
            serializeSet T object = Inr body \<longrightarrow>
            deserializeSet T (body @ rest) (getType T object) = Inr (object, rest)" by simp
      with obj el pn n r
      have "deserializeSet T (body @ rest) (getType T object) = Inr (object, rest)" by blast
      then show ?thesis by (simp add: deserialize_dispatch(11) [OF ok ph] g)
    next
      case (PyFrozenSet c xs)
      with sup sf have obj: "object = PyFrozenSet Exact xs"
        and el: "\<forall>x \<in> set xs. supported T x \<and> sizes_fit T x"
        and pn: "pairwise_ne xs" and n: "length xs < 2 ^ 64"
        by simp_all
      have g: "getType T object = FROZEN_SET_TYPE T" by (simp add: obj getType_def)
      note d = serialize_dispatch(12) [OF ok g]
      from envelope_roundtrip [OF ser d fit] obtain body where
        r: "serializeSet T object = Inr body"
        and ph: "\<And>rest. parseHeaders (produced p @ rest) =
               Inr (FROZEN_SET_TYPE T, of_nat (length body), body @ rest)" by blast
      from 1(4) [OF refl] g tg ok sb
      have "\<forall>xs body rest. (object = PySet Exact xs \<or> object = PyFrozenSet Exact xs) \<and>
            (\<forall>x \<in> set xs. supported T x \<and> sizes_fit T x) \<and>
            pairwise_ne xs \<and> length xs < 2 ^ 64 \<and>
            serializeSet T object = Inr body \<longrightarrow>
            deserializeSet T (body @ rest) (getType T object) = Inr (object, rest)" by simp
      with obj el pn n r
      have "deserializeSet T (body @ rest) (getType T object) = Inr (object, rest)" by blast
      then show ?thesis by (simp add: deserialize_dispatch(12) [OF ok ph] g)
    qed (rule roundtrip_scalar [OF ok sb sup fit ser]; simp)+
  qed
next
  case (2 T object)
  show ?case
  proof (intro impI allI, elim conjE)
    fix xs body rest
    assume ok: "tags_ok T" and sb: "STRING_TYPE T = BYTES_TYPE T"
      and obj: "object = PyList Exact xs"
      and el: "\<forall>x \<in> set xs. supported T x \<and> sizes_fit T x" and n: "length xs < 2 ^ 64"
      and ser: "serializeList T object = Inr body"
    from ser obtain bs where bs: "serializeItems T xs = Inr bs"
      and body: "body = encodeSize (of_nat (length xs)) @ bs"
      by (auto simp: serializeList.simps obj split: sum.splits)
    from 2 [OF obj] ok sb el bs
    have "deserializeItems T (length xs) (bs @ rest) = Inr (xs, rest)" by blast
    then show "deserializeList T (body @ rest) = Inr (object, rest)"
      by (simp add: deserializeList.simps body decodeSize_encodeSize unat_of_nat64 [OF n] obj)
  qed
next
  case (3 T object)
  show ?case
  proof (intro impI allI, elim conjE)
    fix xs body rest
    assume ok: "tags_ok T" and sb: "STRING_TYPE T = BYTES_TYPE T"
      and obj: "object = PyTuple Exact xs"
      and el: "\<forall>x \<in> set xs. supported T x \<and> sizes_fit T x" and n: "length xs < 2 ^ 64"
      and ser: "serializeTuple T object = Inr body"
    from ser obtain bs where bs: "serializeItems T xs = Inr bs"
      and body: "body = encodeSize (of_nat (length xs)) @ bs"
      by (auto simp: serializeTuple.simps obj split: sum.splits)
    from 3 [OF obj] ok sb el bs
    have "deserializeItems T (length xs) (bs @ rest) = Inr (xs, rest)" by blast
    then show "deserializeTuple T (body @ rest) = Inr (object, rest)"
      by (simp add: deserializeTuple.simps body decodeSize_encodeSize unat_of_nat64 [OF n] obj)
  qed
next
  case (4 T object)
  show ?case
  proof (intro impI allI, elim conjE)
    fix kvs body rest
    assume ok: "tags_ok T" and sb: "STRING_TYPE T = BYTES_TYPE T"
      and obj: "object = PyDict Exact kvs"
      and el: "\<forall>kv \<in> set kvs. supported T (fst kv) \<and> sizes_fit T (fst kv) \<and>
                              supported T (snd kv) \<and> sizes_fit T (snd kv)"
      and pn: "pairwise_ne (map fst kvs)" and n: "length kvs < 2 ^ 64"
      and ser: "serializeDict T object = Inr body"
    from ser obtain bs where bs: "serializePairs T kvs = Inr bs"
      and body: "body = encodeSize (of_nat (length kvs)) @ bs"
      by (auto simp: serializeDict.simps obj split: sum.splits)
    from 4 [OF obj] ok sb el bs
    have "deserializePairs T (length kvs) (bs @ rest) = Inr (kvs, rest)" by blast
    moreover have "foldl dict_set [] kvs = kvs"
      using foldl_dict_set [OF pn, of "[]"] by simp
    ultimately show "deserializeDict T (body @ rest) = Inr (object, rest)"
      by (simp add: deserializeDict.simps body decodeSize_encodeSize unat_of_nat64 [OF n] obj)
  qed
next
  case (5 T object)
  show ?case
  proof (intro impI allI, elim conjE)
    fix xs body rest
    assume ok: "tags_ok T" and sb: "STRING_TYPE T = BYTES_TYPE T"
      and obj: "object = PySet Exact xs \<or> object = PyFrozenSet Exact xs"
      and el: "\<forall>x \<in> set xs. supported T x \<and> sizes_fit T x"
      and pn: "pairwise_ne xs" and n: "length xs < 2 ^ 64"
      and ser: "serializeSet T object = Inr body"
    note tg = tag_facts [OF ok]
    from ser obj obtain bs where bs: "serializeItems T xs = Inr bs"
      and body: "body = encodeSize (of_nat (length xs)) @ bs"
      by (auto simp: serializeSet.simps split: sum.splits)
    from obj 5 ok sb el bs
    have "deserializeItems T (length xs) (bs @ rest) = Inr (xs, rest)" by blast
    moreover have "foldl set_add [] xs = xs"
      using foldl_set_add [OF pn, of "[]"] by simp
    ultimately show "deserializeSet T (body @ rest) (getType T object) = Inr (object, rest)"
      using obj
      by (auto simp add: deserializeSet.simps body decodeSize_encodeSize unat_of_nat64 [OF n]
            getType_def tg)
  qed
next
  case (6 T)
  show ?case by simp
next
  case (7 T item items)
  show ?case
  proof (intro impI allI, elim conjE)
    fix bs rest
    assume ok: "tags_ok T" and sb: "STRING_TYPE T = BYTES_TYPE T"
      and el: "\<forall>x \<in> set (item # items). supported T x \<and> sizes_fit T x"
      and ser: "serializeItems T (item # items) = Inr bs"
    from ser obtain p bs' where s1: "serialize T item (None, 0) = (Inr (), p)"
      and s2: "serializeItems T items = Inr bs'" and bs: "bs = produced p @ bs'"
      by (auto split: prod.splits sum.splits)
    from 7(1) ok sb el s1
    have d1: "deserialize T (produced p @ (bs' @ rest)) = Inr (item, bs' @ rest)"
      by (simp del: split_paired_All)
    from 7(2) [OF s1 [symmetric] refl] ok sb el s2
    have d2: "deserializeItems T (length items) (bs' @ rest) = Inr (items, rest)" by simp
    from d1 d2 show "deserializeItems T (length (item # items)) (bs @ rest) = Inr (item # items, rest)"
      by (simp add: bs)
  qed
next
  case (8 T)
  show ?case by simp
next
  case (9 T k v pairs)
  show ?case
  proof (intro impI allI, elim conjE)
    fix bs rest
    assume ok: "tags_ok T" and sb: "STRING_TYPE T = BYTES_TYPE T"
      and el: "\<forall>kv \<in> set ((k, v) # pairs). supported T (fst kv) \<and> sizes_fit T (fst kv) \<and>
                              supported T (snd kv) \<and> sizes_fit T (snd kv)"
      and ser: "serializePairs T ((k, v) # pairs) = Inr bs"
    from ser obtain p q bs' where s1: "serialize T k (None, 0) = (Inr (), p)"
      and s2: "serialize T v (None, 0) = (Inr (), q)"
      and s3: "serializePairs T pairs = Inr bs'" and bs: "bs = produced p @ produced q @ bs'"
      by (auto split: prod.splits sum.splits)
    from 9(1) ok sb el s1
    have d1: "deserialize T (produced p @ (produced q @ bs' @ rest)) =
                Inr (k, produced q @ bs' @ rest)" by (simp del: split_paired_All)
    from 9(2) [OF s1 [symmetric] refl] ok sb el s2
    have d2: "deserialize T (produced q @ (bs' @ rest)) = Inr (v, bs' @ rest)"
      by (simp del: split_paired_All)
    from 9(3) [OF s1 [symmetric] refl s2 [symmetric] refl] ok sb el s3
    have d3: "deserializePairs T (length pairs) (bs' @ rest) = Inr (pairs, rest)" by simp
    from d1 d2 d3
    show "deserializePairs T (length ((k, v) # pairs)) (bs @ rest) = Inr ((k, v) # pairs, rest)"
      by (simp add: bs)
  qed
qed

text \<open>
  Every supported value that \<^verbatim>\<open>serialize\<close> accepts, with sizes that fit, is read
  back by \<^verbatim>\<open>deserialize\<close>, which leaves exactly what follows the envelope; so two
  envelopes in a row are read one after the other.
\<close>

lemma roundtrip:
  assumes "tags_ok T" and "STRING_TYPE T = BYTES_TYPE T"
    and "supported T v" and "sizes_fit T v"
    and "serialize T v outp = (Inr (), p)"
  shows "deserialize T (produced p @ rest) = Inr (v, rest)"
  using roundtrip_all(1) [of T v outp] assms by blast

lemma concat_roundtrip:
  assumes ok: "tags_ok T" and sb: "STRING_TYPE T = BYTES_TYPE T"
    and a: "supported T a" "sizes_fit T a" "serialize T a outp = (Inr (), p)"
    and b: "supported T b" "sizes_fit T b" "serialize T b outp' = (Inr (), q)"
  shows "deserialize T (produced p @ produced q) = Inr (a, produced q)"
    and "deserialize T (produced q) = Inr (b, [])"
  using roundtrip [OF ok sb a, of "produced q"] roundtrip [OF ok sb b, of "[]"] by simp_all

text \<open>
  \<^verbatim>\<open>serialize\<close> accepts every supported value without a boolean in it (when the
  headers give \<^verbatim>\<open>STRING_TYPE\<close> and \<^verbatim>\<open>BYTES_TYPE\<close> the same value), so for these
  values the round trip holds outright, also under the codec's equality.
\<close>

lemma fst_finish: "fst (finish outp t r) = Inr () \<longleftrightarrow> (\<exists>body. r = Inr body)"
  by (cases r) (simp_all add: finish_def)

lemma serialize_succeeds_all:
  shows "tags_ok T \<longrightarrow> STRING_TYPE T = BYTES_TYPE T \<longrightarrow>
         supported T object \<and> bool_free object \<longrightarrow> fst (serialize T object outp) = Inr ()"
    and "tags_ok T \<longrightarrow> STRING_TYPE T = BYTES_TYPE T \<longrightarrow>
         (\<forall>xs. object = PyList Exact xs \<and> (\<forall>x \<in> set xs. supported T x \<and> bool_free x) \<longrightarrow>
            (\<exists>body. serializeList T object = Inr body))"
    and "tags_ok T \<longrightarrow> STRING_TYPE T = BYTES_TYPE T \<longrightarrow>
         (\<forall>xs. object = PyTuple Exact xs \<and> (\<forall>x \<in> set xs. supported T x \<and> bool_free x) \<longrightarrow>
            (\<exists>body. serializeTuple T object = Inr body))"
    and "tags_ok T \<longrightarrow> STRING_TYPE T = BYTES_TYPE T \<longrightarrow>
         (\<forall>kvs. object = PyDict Exact kvs \<and>
            (\<forall>kv \<in> set kvs. supported T (fst kv) \<and> bool_free (fst kv) \<and>
                              supported T (snd kv) \<and> bool_free (snd kv)) \<longrightarrow>
            (\<exists>body. serializeDict T object = Inr body))"
    and "tags_ok T \<longrightarrow> STRING_TYPE T = BYTES_TYPE T \<longrightarrow>
         (\<forall>xs. (object = PySet Exact xs \<or> object = PyFrozenSet Exact xs) \<and>
            (\<forall>x \<in> set xs. supported T x \<and> bool_free x) \<longrightarrow>
            (\<exists>body. serializeSet T object = Inr body))"
    and "tags_ok T \<longrightarrow> STRING_TYPE T = BYTES_TYPE T \<longrightarrow>
         (\<forall>x \<in> set items. supported T x \<and> bool_free x) \<longrightarrow>
         (\<exists>bs. serializeItems T items = Inr bs)"
    and "tags_ok T \<longrightarrow> STRING_TYPE T = BYTES_TYPE T \<longrightarrow>
         (\<forall>kv \<in> set pairs. supported T (fst kv) \<and> bool_free (fst kv) \<and>
                              supported T (snd kv) \<and> bool_free (snd kv)) \<longrightarrow>
         (\<exists>bs. serializePairs T pairs = Inr bs)"
proof (induct rule: serialize_serializeList_serializeTuple_serializeDict_serializeSet_serializeItems_serializePairs.induct)
  case (1 T object outp)
  show ?case
  proof (intro impI, elim conjE)
    assume ok: "tags_ok T" and sb: "STRING_TYPE T = BYTES_TYPE T"
      and sup: "supported T object" and bf: "bool_free object"
    note tg = tag_facts [OF ok]
    note d = serialize_dispatch [OF ok]
    show "fst (serialize T object outp) = Inr ()"
    proof (cases object)
      case (PyInt c v)
      with sup show ?thesis
        by (cases "v < 0")
           (simp_all add: d(1,2) getType_def fst_finish serializeInt_def)
    next
      case (PyLong c v)
      with sup show ?thesis
        by (cases "v < 0")
           (simp_all add: d(3,4) getType_def ob_size_neg fst_finish serializeLong_def
              del: ob_size.simps)
    next
      case (PyFloat c w)
      with sup show ?thesis by (simp add: d(5) getType_def fst_finish serializeFloat_def)
    next
      case (PyString c bs)
      with sup show ?thesis by (simp add: d(6) getType_def sb fst_finish serializeBytes_def)
    next
      case (PyUnicode c bs)
      with sup show ?thesis by (simp add: d(7) getType_def fst_finish serializeUnicode_def)
    next
      case (PyList c xs)
      with sup bf have obj: "object = PyList Exact xs"
        and el: "\<forall>x \<in> set xs. supported T x \<and> bool_free x" by simp_all
      have g: "getType T object = LIST_TYPE T" by (simp add: obj getType_def)
      from 1(1) [OF refl] g tg ok sb obj el
      have "\<exists>body. serializeList T object = Inr body" by simp
      then show ?thesis by (simp add: d(8) [OF g] fst_finish)
    next
      case (PyTuple c xs)
      with sup bf have obj: "object = PyTuple Exact xs"
        and el: "\<forall>x \<in> set xs. supported T x \<and> bool_free x" by simp_all
      have g: "getType T object = TUPLE_TYPE T" by (simp add: obj getType_def)
      from 1(2) [OF refl] g tg ok sb obj el
      have "\<exists>body. serializeTuple T object = Inr body" by simp
      then show ?thesis by (simp add: d(9) [OF g] fst_finish)
    next
      case (PyDict c kvs)
      with sup bf have obj: "object = PyDict Exact kvs"
        and el: "\<forall>kv \<in> set kvs. supported T (fst kv) \<and> bool_free (fst kv) \<and>
                              supported T (snd kv) \<and> bool_free (snd kv)"
        by (auto simp: case_prod_beta)
      have g: "getType T object = DICT_TYPE T" by (simp add: obj getType_def)
      from 1(3) [OF refl] g tg ok sb obj el
      have "\<exists>body. serializeDict T object = Inr body" by simp
      then show ?thesis by (simp add: d(10) [OF g] fst_finish)
    next
      case (PySet c xs)
      with sup bf have obj: "object = PySet Exact xs"
        and el: "\<forall>x \<in> set xs. supported T x \<and> bool_free x" by simp_all
      have g: "getType T object = SET_TYPE T" by (simp add: obj getType_def)
      from 1(4) [OF refl] g tg ok sb obj el
      have "\<exists>body. serializeSet T object = Inr body" by simp
      then show ?thesis by (simp add: d(11) [OF g] fst_finish)
    next
      case (PyFrozenSet c xs)
      with sup bf have obj: "object = PyFrozenSet Exact xs"
        and el: "\<forall>x \<in> set xs. supported T x \<and> bool_free x" by simp_all
      have g: "getType T object = FROZEN_SET_TYPE T" by (simp add: obj getType_def)
      from 1(4) [OF refl] g tg ok sb obj el
      have "\<exists>body. serializeSet T object = Inr body" by simp
      then show ?thesis by (simp add: d(12) [OF g] fst_finish)
    next
      case (PyBool b)
      with bf show ?thesis by simp
    next
      case PyNone
      then show ?thesis by (simp add: d(13) getType_def fst_finish serializeNone_def)
    next
      case (PyOther name)
      with sup show ?thesis by simp
    qed
  qed
next
  case (2 T object)
  then show ?case by (auto simp: serializeList.simps split: sum.splits)
next
  case (3 T object)
  then show ?case by (auto simp: serializeTuple.simps split: sum.splits)
next
  case (4 T object)
  then show ?case by (auto simp: serializeDict.simps split: sum.splits)
next
  case (5 T object)
  then show ?case by (auto simp: serializeSet.simps split: sum.splits)
next
  case (6 T)
  show ?case by simp
next
  case (7 T item items)
  show ?case
  proof (intro impI)
    assume ok: "tags_ok T" and sb: "STRING_TYPE T = BYTES_TYPE T"
      and el: "\<forall>x \<in> set (item # items). supported T x \<and> bool_free x"
    obtain x p where s1: "serialize T item (None, 0) = (x, p)"
      by (cases "serialize T item (None, 0)")
    from 7(1) ok sb el s1 have x: "x = Inr ()" by simp
    from 7(2) [OF s1 [symmetric] x] ok sb el
    obtain bs where "serializeItems T items = Inr bs" by auto
    then show "\<exists>bs. serializeItems T (item # items) = Inr bs" by (simp add: s1 x)
  qed
next
  case (8 T)
  show ?case by simp
next
  case (9 T k v pairs)
  show ?case
  proof (intro impI)
    assume ok: "tags_ok T" and sb: "STRING_TYPE T = BYTES_TYPE T"
      and el: "\<forall>kv \<in> set ((k, v) # pairs). supported T (fst kv) \<and> bool_free (fst kv) \<and>
                              supported T (snd kv) \<and> bool_free (snd kv)"
    obtain x p where s1: "serialize T k (None, 0) = (x, p)"
      by (cases "serialize T k (None, 0)")
    obtain y q where s2: "serialize T v (None, 0) = (y, q)"
      by (cases "serialize T v (None, 0)")
    from 9(1) ok sb el s1 have x: "x = Inr ()" by simp
    from 9(2) [OF s1 [symmetric] x] ok sb el s2 have y: "y = Inr ()" by simp
    from 9(3) [OF s1 [symmetric] x s2 [symmetric] y] ok sb el
    obtain bs where "serializePairs T pairs = Inr bs" by auto
    then show "\<exists>bs. serializePairs T ((k, v) # pairs) = Inr bs" by (simp add: s1 s2 x y)
  qed
qed

lemma serialize_succeeds:
  assumes "tags_ok T" and "STRING_TYPE T = BYTES_TYPE T" and "supported T v" and "bool_free v"
  shows "fst (serialize T v outp) = Inr ()"
  using serialize_succeeds_all(1) [of T v outp] assms by blast

subsection \<open>Subclasses\<close>

text \<open>
  Claim C10. Type detection is exact for numbers and containers: an instance of a strict
  subclass of int, long, float, list, tuple, dict, set or frozenset gets the result 0 from
  \<^verbatim>\<open>getType\<close>, and \<^verbatim>\<open>serialize\<close> fails on it. It is not exact for strings: an
  instance of a subclass of the string or of the unicode type gets the tag of its base
  type, which is not 0, and \<^verbatim>\<open>serialize\<close> accepts it (a string on the condition that
  the headers give \<^verbatim>\<open>STRING_TYPE\<close> and \<^verbatim>\<open>BYTES_TYPE\<close> the same value).
\<close>

theorem subclass_detection:
  "getType T (PyInt Subclass i) = 0 \<and>
   getType T (PyLong Subclass i) = 0 \<and>
   getType T (PyFloat Subclass w) = 0 \<and>
   getType T (PyList Subclass xs) = 0 \<and>
   getType T (PyTuple Subclass xs) = 0 \<and>
   getType T (PyDict Subclass kvs) = 0 \<and>
   getType T (PySet Subclass xs) = 0 \<and>
   getType T (PyFrozenSet Subclass xs) = 0 \<and>
   serialize T (PyInt Subclass i) outp = (Inl TypeMismatch, outp) \<and>
   serialize T (PyLong Subclass i) outp = (Inl TypeMismatch, outp) \<and>
   serialize T (PyFloat Subclass w) outp = (Inl TypeMismatch, outp) \<and>
   serialize T (PyList Subclass xs) outp = (Inl TypeMismatch, outp) \<and>
   serialize T (PyTuple Subclass xs) outp = (Inl TypeMismatch, outp) \<and>
   serialize T (PyDict Subclass kvs) outp = (Inl TypeMismatch, outp) \<and>
   serialize T (PySet Subclass xs) outp = (Inl TypeMismatch, outp) \<and>
   serialize T (PyFrozenSet Subclass xs) outp = (Inl TypeMismatch, outp) \<and>
   getType T (PyString Subclass bs) = STRING_TYPE T \<and>
   getType T (PyString Subclass bs) = getType T (PyString Exact bs) \<and>
   getType T (PyUnicode Subclass bs) = UNICODE_TYPE T \<and>
   getType T (PyUnicode Subclass bs) = getType T (PyUnicode Exact bs) \<and>
   (tags_ok T \<longrightarrow>
      getType T (PyString Subclass bs) \<noteq> 0 \<and> getType T (PyUnicode Subclass bs) \<noteq> 0 \<and>
      fst (serialize T (PyUnicode Subclass bs) outp) = Inr ()) \<and>
   (tags_ok T \<and> STRING_TYPE T = BYTES_TYPE T \<longrightarrow>
      fst (serialize T (PyString Subclass bs) outp) = Inr ())"
proof -
  have g: "getType T (PyInt Subclass i) = 0" "getType T (PyLong Subclass i) = 0"
    "getType T (PyFloat Subclass w) = 0" "getType T (PyList Subclass xs) = 0"
    "getType T (PyTuple Subclass xs) = 0" "getType T (PyDict Subclass kvs) = 0"
    "getType T (PySet Subclass xs) = 0" "getType T (PyFrozenSet Subclass xs) = 0"
    by (simp_all add: getType_def)
  note s = g [THEN serialize_unknown]
  have str: "getType T (PyString Subclass bs) = STRING_TYPE T"
    "getType T (PyString Exact bs) = STRING_TYPE T"
    "getType T (PyUnicode Subclass bs) = UNICODE_TYPE T"
    "getType T (PyUnicode Exact bs) = UNICODE_TYPE T"
    by (simp_all add: getType_def)
  have nz: "STRING_TYPE T \<noteq> 0 \<and> UNICODE_TYPE T \<noteq> 0" if "tags_ok T"
    using that by (simp add: tags_ok_def case_labels_def)
  have su: "fst (serialize T (PyUnicode Subclass bs) outp) = Inr ()" if "tags_ok T"
    by (simp add: serialize_dispatch(7) [OF that str(3)] fst_finish serializeUnicode_def)
  have ss: "fst (serialize T (PyString Subclass bs) outp) = Inr ()"
    if "tags_ok T \<and> STRING_TYPE T = BYTES_TYPE T"
  proof -
    from that have ok: "tags_ok T" and g6: "getType T (PyString Subclass bs) = BYTES_TYPE T"
      by (simp_all add: str(1))
    show ?thesis by (simp add: serialize_dispatch(6) [OF ok g6] fst_finish serializeBytes_def)
  qed
  from g s str nz su ss show ?thesis by simp
qed

theorem subclass_detection_witness:
  "tags_ok example_codec \<and>
   getType example_codec (PyList Subclass []) = 0 \<and>
   serialize example_codec (PyList Subclass []) (None, 0) = (Inl TypeMismatch, (None, 0)) \<and>
   getType example_codec (PyString Subclass [65]) = 5 \<and>
   getType example_codec (PyUnicode Subclass [65]) = 6 \<and>
   fst (serialize example_codec (PyUnicode Subclass [65]) (None, 0)) = Inr () \<and>
   fst (serialize example_codec (PyString Subclass [65]) (None, 0)) = Inr ()"
  using subclass_detection [of example_codec 0 0 "[]" "[]" "(None, 0)" "[65]"]
  by (simp add: tags_ok_def case_labels_def example_codec_def)

subsection \<open>Round trip of the supported values\<close>

lemma py_eq_refl: "py_eq a a"
  by (induction a) (fastforce simp: list_all2_same)+

lemma roundtrip_supported:
  assumes ok: "tags_ok T" and sb: "STRING_TYPE T = BYTES_TYPE T"
    and sup: "supported T v" and bf: "bool_free v" and sf: "sizes_fit T v"
  shows "\<exists>p. serialize T v outp = (Inr (), p) \<and>
           deserialize T (produced p @ rest) = Inr (v, rest)"
proof -
  have "serialize T v outp = (Inr (), snd (serialize T v outp))"
    using serialize_succeeds [OF ok sb sup bf, of outp] by (simp add: prod_eq_iff)
  with roundtrip [OF ok sb sup sf this] show ?thesis by blast
qed

lemma roundtrip_py_eq:
  assumes "tags_ok T" and "STRING_TYPE T = BYTES_TYPE T"
    and "supported T v" and "bool_free v" and "sizes_fit T v"
  shows "\<exists>p v'. serialize T v outp = (Inr (), p) \<and>
           deserialize T (produced p @ rest) = Inr (v', rest) \<and> py_eq v' v"
  using roundtrip_supported [OF assms, of outp rest] py_eq_refl by blast

text \<open>
  The bytes of the README's examples: \<^verbatim>\<open>dumps(123)\<close>, \<^verbatim>\<open>dumps('123')\<close> and
  \<^verbatim>\<open>dumps([1, 2, 3, ('4', '5', '6')])\<close>; the last one read back.
\<close>

lemma readme_examples:
  "produced (snd (serialize example_codec (PyInt Exact 123) (None, 0))) = [0x01, 0x81, 0x7B]"
  "produced (snd (serialize example_codec (PyString Exact [0x31, 0x32, 0x33]) (None, 0)))
     = [0x05, 0x83, 0x31, 0x32, 0x33]"
  "produced (snd (serialize example_codec
      (PyList Exact [PyInt Exact 1, PyInt Exact 2, PyInt Exact 3,
         PyTuple Exact [PyString Exact [0x34], PyString Exact [0x35], PyString Exact [0x36]]])
      (None, 0)))
     = [0x08, 0x96, 0x84, 0x01, 0x81, 0x01, 0x01, 0x81, 0x02, 0x01, 0x81, 0x03, 0x09, 0x8A,
        0x83, 0x05, 0x81, 0x34, 0x05, 0x81, 0x35, 0x05, 0x81, 0x36]"
  by (simp_all add: serialize.simps serializeList.simps serializeTuple.simps getType_def
        example_codec_def serializeInt_def serializeBytes_def int_magnitude_def be_bytes.simps
        constructHeaders_def encodeSize_def produced_def Let_def)

lemma readme_roundtrip:
  "deserialize example_codec
     [0x08, 0x96, 0x84, 0x01, 0x81, 0x01, 0x01, 0x81, 0x02, 0x01, 0x81, 0x03, 0x09, 0x8A,
      0x83, 0x05, 0x81, 0x34, 0x05, 0x81, 0x35, 0x05, 0x81, 0x36]
   = Inr (PyList Exact [PyInt Exact 1, PyInt Exact 2, PyInt Exact 3,
            PyTuple Exact [PyString Exact [0x34], PyString Exact [0x35], PyString Exact [0x36]]],
          [])"
proof -
  let ?v = "PyList Exact [PyInt Exact 1, PyInt Exact 2, PyInt Exact 3,
            PyTuple Exact [PyString Exact [0x34], PyString Exact [0x35], PyString Exact [0x36]]]"
  have sb: "STRING_TYPE example_codec = BYTES_TYPE example_codec"
    by (simp add: example_codec_def)
  have sup: "supported example_codec ?v" and bf: "bool_free ?v" by simp_all
  have sf: "sizes_fit example_codec ?v"
    by (simp add: block_fits_def serialize.simps serializeList.simps serializeTuple.simps
          getType_def example_codec_def serializeInt_def serializeBytes_def int_magnitude_def
          be_bytes.simps constructHeaders_def encodeSize_def produced_def Let_def)
  from roundtrip_supported [OF example_tags_ok sb sup bf sf, of "(None, 0)" "[]"]
    readme_examples(3)
  show ?thesis by auto
qed

text \<open>
  Claim C1. The round trip should hold for every supported value. A boolean is a
  supported value, but \<^verbatim>\<open>serialize\<close> fails on it (as in claim C2, \<^verbatim>\<open>getType\<close>
  returns 0): no byte is produced, and decoding what was produced fails. For every
  supported value without a boolean in it, the round trip is lemma
  \<open>roundtrip_supported\<close>.
\<close>

theorem bool_roundtrip_fails:
  "serialize T (PyBool b) outp = (Inl TypeMismatch, outp) \<and>
   produced (snd (serialize T (PyBool b) (None, 0))) = [] \<and>
   deserialize T (produced (snd (serialize T (PyBool b) (None, 0)))) = Inl BufferUnderrun"
  by (simp add: serialize.simps getType_def produced_def deserialize.simps parseHeaders_def)

text \<open>
  Claim C7. Two envelopes in a row should decode to the two values for all supported
  values. For the boolean False followed by None, \<^verbatim>\<open>serialize\<close> fails on the first
  value (as in claim C2), only the envelope of None is there, and the first call of
  \<^verbatim>\<open>deserialize\<close> yields None. For the values \<^verbatim>\<open>serialize\<close> accepts, the property
  is lemma \<open>concat_roundtrip\<close>.
\<close>

theorem bool_concat_fails:
  "serialize example_codec (PyBool False) (None, 0) = (Inl TypeMismatch, (None, 0)) \<and>
   serialize example_codec PyNone (None, 0) = (Inr (), (Some [15, 0x80, 0], 2)) \<and>
   deserialize example_codec
     (produced (snd (serialize example_codec (PyBool False) (None, 0))) @
      produced (snd (serialize example_codec PyNone (None, 0)))) = Inr (PyNone, [])"
  by (simp add: serialize.simps getType_def example_codec_def serializeNone_def
        constructHeaders_def encodeSize_def produced_def Let_def
        deserialize.simps parseHeaders_def decodeSize_def deserializeNone_def)

end
